theory Spec2Isabelle
  imports Complex_Main "HOL-Library.Monad_Syntax" "HOL-Library.AList"
begin

section \<open>The Dino game: data model\<close>

text \<open>
  The program is one Python class, \<open>DinoGame\<close>, whose methods mutate the attributes of
  \<open>self\<close>, a Tk canvas and one JSON file. The model is a record of those attributes,
  returned updated by every method.

  \<^item> Attributes that \<open>__init__\<close> does not assign (\<open>player_name\<close>, \<open>canvas\<close>,
    \<open>dino_y\<close>, \<open>dino_jump\<close>, \<open>dino_speed\<close>, \<open>obstacles\<close>, \<open>score\<close>,
    \<open>obstacle_speed\<close>) are options: \<open>None\<close> is "the attribute does not exist",
    which \<open>getattr(self, name, default)\<close> tests and a plain read turns into an
    \<open>AttributeError\<close>.
  \<^item> A method returns \<open>game option\<close>; \<open>None\<close> is "the call raises" (an
    \<open>AttributeError\<close>, a \<open>KeyError\<close> or a \<open>TclError\<close>). Exceptions that the
    source catches are branches that return a state.
  \<^item> Python floats are modelled as exact rationals. The speed ramp only ever adds
    \<open>0.75\<close> to an integer, which binary floating point represents exactly as well.
  \<^item> The positions of canvas items live in the canvas; the model keeps them next to the
    items: \<open>dino\<close> is the position of the dino image, \<open>obstacles\<close> lists the positions of
    the items in \<open>self.obstacles\<close>, in list order. Every obstacle uses the only sprite of
    \<open>obstacle_images\<close>, so the image component of the pairs is left out.
  \<^item> \<open>root.after(ms, f)\<close> appends \<open>(ms, f)\<close> to \<open>scheduled\<close>, the requests made so
    far.
  \<^item> \<open>rng\<close> is the entropy \<open>random.randint\<close> consumes, \<open>save_file\<close> the content of
    \<open>game_save.json\<close>, \<open>writable\<close> whether opening it for writing succeeds.
\<close>

type_synonym point = "rat \<times> rat"
type_synonym box = "int \<times> int \<times> int \<times> int"

text \<open>
  \<open>canvas.bbox(item)\<close> depends on the sizes of \<open>dino_big.png\<close> and \<open>rock_new.png\<close>,
  which are not part of the sources: the two bounding-box functions are parameters.
\<close>

record sprites =
  dino_bbox :: "point \<Rightarrow> box"
  obstacle_bbox :: "point \<Rightarrow> box"

datatype callback = UpdateGame | IncrementScore | IncreaseSpeed | DeactivateInvincibility

datatype canvas_state = Alive | Destroyed

record obstacle_info =
  oi_x :: "rat option"
  oi_y :: "rat option"
  oi_image_index :: "int option"

text \<open>The JSON object of the save file; a key that is absent is \<open>None\<close>.\<close>

record snapshot =
  s_player_name :: "string option"
  s_score :: "int option"
  s_dino_y :: "rat option"
  s_dino_jump :: "bool option"
  s_dino_speed :: "rat option"
  s_obstacle_speed :: "rat option"
  s_keybinds :: "(string \<times> string) list option"
  s_leaderboard :: "(string \<times> int) list option"
  s_obstacles :: "obstacle_info list option"

text \<open>
  What \<open>open(SAVE_FILE)\<close> followed by \<open>json.load\<close> meets:
  \<^item> \<open>NoFile\<close>: there is no file (\<open>FileNotFoundError\<close>);
  \<^item> \<open>Unparsable\<close>: text that is not JSON (\<open>JSONDecodeError\<close>);
  \<^item> \<open>Undecodable\<close>: bytes that are not text in the encoding of the platform
    (\<open>UnicodeDecodeError\<close>, a \<open>ValueError\<close> that is not a \<open>JSONDecodeError\<close>);
  \<^item> \<open>Scalar\<close>: a JSON number, \<open>true\<close>, \<open>false\<close> or \<open>null\<close>, on which \<open>in\<close>
    raises \<open>TypeError\<close>;
  \<^item> \<open>JString s\<close>: a JSON string, on which \<open>in\<close> is the substring test and \<open>.get\<close>
    raises \<open>AttributeError\<close>;
  \<^item> \<open>JArray xs\<close>: a JSON array, given by its string elements \<open>xs\<close> (no other
    element is equal to a string), on which \<open>in\<close> is membership and \<open>.get\<close> raises
    \<open>AttributeError\<close>;
  \<^item> \<open>Parsed s\<close>: a JSON object, whose present keys carry the types
    \<open>save_game_state\<close> writes.

  Errors of the operating system other than a missing file (permissions, a directory of
  that name) are not modelled.
\<close>

datatype file_content =
  NoFile | Unparsable | Undecodable | Scalar | JString string | JArray "string list" |
  Parsed snapshot

record game =
  leaderboard :: "(string \<times> int) list"
  paused :: bool
  keybinds :: "(string \<times> string) list"
  game_running :: bool
  saved_state :: bool
  invincible :: bool
  player_name :: "string option"
  canvas :: "canvas_state option"
  dino_y :: "rat option"
  dino_jump :: "bool option"
  dino_speed :: "rat option"
  dino :: "point option"
  obstacles :: "point list option"
  score :: "int option"
  obstacle_speed :: "rat option"
  scheduled :: "(nat \<times> callback) list"
  save_file :: file_content
  writable :: bool
  rng :: "nat list"

section \<open>Library behaviour the methods rely on\<close>

text \<open>
  \<open>random.randint(a, b)\<close> returns an integer \<open>N\<close> with \<open>a \<le> N \<le> b\<close>, both ends
  included. One entry of the entropy list is used per call and every value of the range
  can come out; an exhausted list gives \<open>a\<close>.
\<close>

definition randint :: "int \<Rightarrow> int \<Rightarrow> game \<Rightarrow> int \<times> game" where
  "randint a b g =
     (case rng g of
        [] \<Rightarrow> (a, g)
      | r # rs \<Rightarrow> (a + int (r mod nat (b - a + 1)), g\<lparr>rng := rs\<rparr>))"

text \<open>
  \<open>sorted(xs, key=k, reverse=True)\<close>: a stable sort, descending by key; elements with
  equal keys keep their order (CPython reverses, sorts stably, reverses again).
\<close>

definition sorted_reverse :: "('a \<Rightarrow> 'k::linorder) \<Rightarrow> 'a list \<Rightarrow> 'a list" where
  "sorted_reverse key xs = rev (sort_key key (rev xs))"

definition after :: "nat \<Rightarrow> callback \<Rightarrow> game \<Rightarrow> game" where
  "after ms f g = g\<lparr>scheduled := scheduled g @ [(ms, f)]\<rparr>"

text \<open>A canvas call raises \<open>TclError\<close> once the widget is destroyed.\<close>

definition canvas_alive :: "game \<Rightarrow> unit option" where
  "canvas_alive g = (if canvas g = Some Alive then Some () else None)"

text \<open>A dictionary with string keys is an association list in insertion order, as
  Python keeps it and \<open>json.dump\<close> writes it; \<open>d[k]\<close> is \<open>map_of d k\<close> and
  \<open>d.update(e)\<close> stores the entries of \<open>e\<close> one after the other.\<close>

definition dict_update :: "('k \<times> 'v) list \<Rightarrow> ('k \<times> 'v) list \<Rightarrow> ('k \<times> 'v) list" where
  "dict_update d e = fold (\<lambda>(k, v). AList.update k v) e d"

definition default_keybinds :: "(string \<times> string) list" where
  "default_keybinds = [(''jump'', ''space''), (''pause'', ''p''), (''boss_key'', ''b'')]"

text \<open>\<open>dict.get(key, default)\<close> and \<open>getattr(self, name, default)\<close>.\<close>

definition getd :: "'a option \<Rightarrow> 'a \<Rightarrow> 'a" where
  "getd v d = (case v of None \<Rightarrow> d | Some x \<Rightarrow> x)"

section \<open>The methods\<close>

definition jump_speed :: rat where "jump_speed = - 15"
definition gravity :: rat where "gravity = 115 / 100"
definition max_speed :: rat where "max_speed = 25"
definition speed_increase_interval :: nat where "speed_increase_interval = 5000"

text \<open>\<open>apply_keybinds\<close> reads the three keys of the dictionary (\<open>KeyError\<close> if one is
  missing) and binds them; the Tk bindings themselves are not part of the state.\<close>

definition apply_keybinds :: "game \<Rightarrow> game option" where
  "apply_keybinds g = do {
     _ \<leftarrow> map_of (keybinds g) ''jump'';
     _ \<leftarrow> map_of (keybinds g) ''pause'';
     _ \<leftarrow> map_of (keybinds g) ''boss_key'';
     Some g
   }"

definition jump :: "game \<Rightarrow> game option" where
  "jump g = do {
     dj \<leftarrow> dino_jump g;
     if \<not> dj \<and> \<not> paused g
     then Some (g\<lparr>dino_jump := Some True, dino_speed := Some jump_speed\<rparr>)
     else Some g
   }"

text \<open>\<open>create_obstacles\<close>: three draws; the offset drawn after the second obstacle is
  not used.\<close>

definition create_obstacles :: "game \<Rightarrow> game option" where
  "create_obstacles g = do {
     obs \<leftarrow> obstacles g;
     if obs = [] then do {
       let (x1, g1) = randint 750 850 g;
       _ \<leftarrow> canvas_alive g1;
       let (d1, g2) = randint 400 800 g1;
       let x2 = x1 + d1;
       let (d2, g3) = randint 400 800 g2;
       Some (g3\<lparr>obstacles := Some [(of_int x1, 340), (of_int x2, 340)]\<rparr>)
     } else Some g
   }"

text \<open>
  \<open>check_collision\<close> reads \<open>self.invincible\<close> and the two bounding boxes of the canvas;
  they are its arguments here.
\<close>

definition check_collision :: "bool \<Rightarrow> box \<Rightarrow> box \<Rightarrow> bool" where
  "check_collision invinc dino_coords obstacle_coords =
     (if invinc then False
      else
        (case dino_coords of (d0, d1, d2, d3) \<Rightarrow>
         case obstacle_coords of (b0, b1, b2, b3) \<Rightarrow>
           let dino_vertical_margin = 7;
               dino_horizontal_margin = 30;
               obstacle_margin = 30;
               a0 = d0 + dino_horizontal_margin;
               a1 = d1 + dino_vertical_margin;
               a2 = d2 - dino_horizontal_margin;
               a3 = d3 - dino_vertical_margin;
               o0 = b0 + obstacle_margin;
               o1 = b1 + obstacle_margin;
               o2 = b2 - obstacle_margin;
               o3 = b3 - obstacle_margin
           in a2 > o0 \<and> a0 < o2 \<and> a3 > o1 \<and> a1 < o3))"

definition game_over :: "game \<Rightarrow> game option" where
  "game_over g = do {
     let g1 = g\<lparr>game_running := False\<rparr>;
     let g2 = (if save_file g1 \<noteq> NoFile
               then g1\<lparr>save_file := NoFile, saved_state := False\<rparr> else g1);
     name \<leftarrow> player_name g2;
     sc \<leftarrow> score g2;
     let g3 = g2\<lparr>leaderboard := leaderboard g2 @ [(name, sc)]\<rparr>;
     let g4 = g3\<lparr>leaderboard := take 5 (sorted_reverse snd (leaderboard g3))\<rparr>;
     _ \<leftarrow> canvas_alive g4;
     Some g4
   }"

text \<open>One pass of the body of \<open>for obstacle, _ in self.obstacles\<close>, for the item at
  index \<open>i\<close>.\<close>

definition obstacle_tick :: "sprites \<Rightarrow> nat \<Rightarrow> game \<Rightarrow> game option" where
  "obstacle_tick sp i g = do {
     obs \<leftarrow> obstacles g;
     v \<leftarrow> obstacle_speed g;
     _ \<leftarrow> canvas_alive g;
     let (x, y) = obs ! i;
     let moved = (x - v, y);
     let (p, g1) = (if fst moved < 0
                    then (let (x_position, g') = randint 800 1100 g
                          in ((of_int x_position, 340), g'))
                    else (moved, g));
     let g2 = g1\<lparr>obstacles := Some (obs[i := p])\<rparr>;
     d \<leftarrow> dino g2;
     if check_collision (invincible g2) (dino_bbox sp d) (obstacle_bbox sp p)
     then game_over g2 else Some g2
   }"

fun obstacles_loop :: "sprites \<Rightarrow> nat list \<Rightarrow> game \<Rightarrow> game option" where
  "obstacles_loop sp [] g = Some g"
| "obstacles_loop sp (i # is) g = do {
     g' \<leftarrow> obstacle_tick sp i g;
     obstacles_loop sp is g'
   }"

text \<open>The jumping mechanics at the head of \<open>update_game\<close>.\<close>

definition jump_mechanics :: "game \<Rightarrow> game option" where
  "jump_mechanics g = do {
     dj \<leftarrow> dino_jump g;
     if dj then do {
       y \<leftarrow> dino_y g;
       v \<leftarrow> dino_speed g;
       let g1 = g\<lparr>dino_y := Some (y + v)\<rparr>;
       let g2 = g1\<lparr>dino_speed := Some (v + gravity)\<rparr>;
       Some (if y + v \<ge> 248
             then g2\<lparr>dino_y := Some 248, dino_jump := Some False\<rparr>
             else g2)
     } else Some g
   }"

definition update_game :: "sprites \<Rightarrow> game \<Rightarrow> game option" where
  "update_game sp g =
     (if \<not> game_running g \<or> paused g then Some g
      else do {
        g1 \<leftarrow> jump_mechanics g;
        y \<leftarrow> dino_y g1;
        _ \<leftarrow> canvas_alive g1;
        let g2 = g1\<lparr>dino := Some (75, y + 26)\<rparr>;
        obs \<leftarrow> obstacles g2;
        g3 \<leftarrow> obstacles_loop sp [0..<length obs] g2;
        Some (after 30 UpdateGame g3)
      })"

definition increment_score :: "game \<Rightarrow> game option" where
  "increment_score g =
     (if game_running g \<and> \<not> paused g then do {
        sc \<leftarrow> score g;
        let g1 = g\<lparr>score := Some (sc + 1)\<rparr>;
        _ \<leftarrow> canvas_alive g1;
        Some (after 100 IncrementScore g1)
      } else Some g)"

definition increase_speed :: "game \<Rightarrow> game option" where
  "increase_speed g = do {
     v \<leftarrow> obstacle_speed g;
     let g1 = (if v < max_speed \<and> \<not> paused g
               then g\<lparr>obstacle_speed := Some (v + 75 / 100)\<rparr> else g);
     Some (after speed_increase_interval IncreaseSpeed g1)
   }"

definition activate_invincibility :: "game \<Rightarrow> game option" where
  "activate_invincibility g =
     (if \<not> invincible g then do {
        let g1 = g\<lparr>invincible := True\<rparr>;
        _ \<leftarrow> canvas_alive g1;
        Some (after 10000 DeactivateInvincibility g1)
      } else Some g)"

definition deactivate_invincibility :: "game \<Rightarrow> game option" where
  "deactivate_invincibility g = do {
     let g1 = g\<lparr>invincible := False\<rparr>;
     _ \<leftarrow> canvas_alive g1;
     Some g1
   }"

text \<open>\<open>handle_cheat_code\<close>; the argument is \<open>event.char.lower()\<close>.\<close>

definition handle_cheat_code :: "string \<Rightarrow> game \<Rightarrow> game option" where
  "handle_cheat_code c g =
     (if c = ''c'' \<and> game_running g then activate_invincibility g else Some g)"

definition pause :: "sprites \<Rightarrow> game \<Rightarrow> game option" where
  "pause sp g =
     (if \<not> game_running g then Some g
      else do {
        let g1 = g\<lparr>paused := \<not> paused g\<rparr>;
        _ \<leftarrow> canvas_alive g1;
        if paused g1 then Some g1
        else do {
          g2 \<leftarrow> update_game sp g1;
          increment_score g2
        }
      })"

definition boss_key :: "game \<Rightarrow> game option" where
  "boss_key g =
     (if \<not> game_running g then Some g
      else if \<not> paused g then do {
        let g1 = g\<lparr>paused := True\<rparr>;
        _ \<leftarrow> canvas_alive g1;
        Some g1
      } else Some g)"

section \<open>Persistence\<close>

text \<open>\<open>sub in s\<close> on Python strings: \<open>sub\<close> occurs in \<open>s\<close> as a contiguous piece.\<close>

fun contains :: "string \<Rightarrow> string \<Rightarrow> bool" where
  "contains sub [] = (sub = [])"
| "contains sub (c # cs) = (take (length sub) (c # cs) = sub \<or> contains sub cs)"

text \<open>
  \<open>load_initial_state\<close> catches \<open>FileNotFoundError\<close> and \<open>JSONDecodeError\<close> only.
  What else is raised leaves the method, and the constructor that calls it: the
  \<open>UnicodeDecodeError\<close> of \<open>json.load\<close>, the \<open>TypeError\<close> of \<open>in\<close> on a number,
  \<open>true\<close>, \<open>false\<close> or \<open>null\<close>, and the \<open>AttributeError\<close> of \<open>.get\<close> on a string
  or an array that passed both \<open>in\<close> tests.
\<close>

definition load_initial_state :: "game \<Rightarrow> game option" where
  "load_initial_state g =
     (case save_file g of
        NoFile \<Rightarrow>
          Some (g\<lparr>leaderboard := [], keybinds := default_keybinds, saved_state := False\<rparr>)
      | Unparsable \<Rightarrow>
          Some (g\<lparr>leaderboard := [], keybinds := default_keybinds, saved_state := False\<rparr>)
      | Undecodable \<Rightarrow> None
      | Scalar \<Rightarrow> None
      | JString s \<Rightarrow>
          (if contains ''score'' s \<and> contains ''keybinds'' s then None
           else Some (g\<lparr>saved_state := False\<rparr>))
      | JArray xs \<Rightarrow>
          (if ''score'' \<in> set xs \<and> ''keybinds'' \<in> set xs then None
           else Some (g\<lparr>saved_state := False\<rparr>))
      | Parsed game_state \<Rightarrow>
          (if s_score game_state \<noteq> None \<and> s_keybinds game_state \<noteq> None
           then Some (g\<lparr>leaderboard := getd (s_leaderboard game_state) [],
                        keybinds := getd (s_keybinds game_state) (keybinds g),
                        saved_state := True\<rparr>)
           else Some (g\<lparr>saved_state := False\<rparr>)))"

text \<open>
  The obstacle part of \<open>save_game_state\<close>. \<open>hasattr(self, "canvas") and self.canvas\<close>
  holds as soon as the attribute exists (a widget object is truthy). On a destroyed canvas
  \<open>coords\<close> raises \<open>TclError\<close>, which the method answers with the empty list; without
  obstacles the loop body never runs. The image index is 0 for every obstacle: the table
  has one sprite, and an image that is not found is given index 0.
\<close>

definition saved_obstacles :: "game \<Rightarrow> obstacle_info list" where
  "saved_obstacles g =
     (case canvas g of
        None \<Rightarrow> []
      | Some Destroyed \<Rightarrow> []
      | Some Alive \<Rightarrow>
          map (\<lambda>(x, y). \<lparr>oi_x = Some x, oi_y = Some y, oi_image_index = Some 0\<rparr>)
            (getd (obstacles g) []))"

definition game_state_of :: "game \<Rightarrow> snapshot" where
  "game_state_of g =
     \<lparr>s_player_name = Some (getd (player_name g) ''Player''),
      s_score = Some (getd (score g) 0),
      s_dino_y = Some (getd (dino_y g) 300),
      s_dino_jump = Some (getd (dino_jump g) False),
      s_dino_speed = Some (getd (dino_speed g) 0),
      s_obstacle_speed = Some (getd (obstacle_speed g) 5),
      s_keybinds = Some (keybinds g),
      s_leaderboard = Some (leaderboard g),
      s_obstacles = Some (saved_obstacles g)\<rparr>"

text \<open>\<open>save_game_state\<close>: an \<open>IOError\<close> on writing is printed and the file stays as it
  was.\<close>

definition save_game_state :: "game \<Rightarrow> game" where
  "save_game_state g =
     (if writable g then g\<lparr>save_file := Parsed (game_state_of g)\<rparr> else g)"

text \<open>
  The loop of \<open>load_saved_state\<close> that recreates the obstacles. \<open>obstacle_images\<close> has
  one element, so an index other than \<open>0\<close> and \<open>-1\<close> raises \<open>IndexError\<close>: the result
  is the list built so far and whether the loop came to its end.
\<close>

fun recreate_obstacles :: "obstacle_info list \<Rightarrow> point list \<Rightarrow> point list \<times> bool" where
  "recreate_obstacles [] acc = (acc, True)"
| "recreate_obstacles (obstacle_info # rest) acc =
     (let x = getd (oi_x obstacle_info) 800;
          y = getd (oi_y obstacle_info) 340;
          image_index = getd (oi_image_index obstacle_info) 0
      in if image_index = 0 \<or> image_index = - 1
         then recreate_obstacles rest (acc @ [(x, y)])
         else (acc, False))"

text \<open>
  \<open>load_saved_state\<close> wraps its whole body in \<open>try ... except Exception\<close>: whatever is
  raised is printed, and the object stays as the statements before left it. The body is
  split in two: the attributes (up to \<open>apply_keybinds\<close>) and the obstacles.
\<close>

definition restore_attributes :: "snapshot \<Rightarrow> game \<Rightarrow> game" where
  "restore_attributes game_state g =
     g\<lparr>player_name := Some (getd (s_player_name game_state) ''Player''),
       score := Some (getd (s_score game_state) 0),
       dino_y := Some (getd (s_dino_y game_state) 248),
       dino_jump := Some (getd (s_dino_jump game_state) False),
       dino_speed := Some (getd (s_dino_speed game_state) 0),
       obstacle_speed := Some (getd (s_obstacle_speed game_state) 5),
       keybinds := getd (s_keybinds game_state) (keybinds g)\<rparr>"

text \<open>
  The obstacle part. On a canvas that is not alive the first canvas call raises: it is
  \<open>create_image\<close> of the first saved obstacle, or the one in \<open>create_obstacles\<close>, after
  its first draw.
\<close>

definition restore_obstacles :: "snapshot \<Rightarrow> game \<Rightarrow> game" where
  "restore_obstacles game_state g =
     (let obstacle_data = getd (s_obstacles game_state) [];
          g1 = g\<lparr>obstacles := Some []\<rparr>
      in if canvas g1 \<noteq> Some Alive
         then (if obstacle_data = [] then snd (randint 750 850 g1) else g1)
         else
           (case recreate_obstacles obstacle_data [] of
              (obs, False) \<Rightarrow> g1\<lparr>obstacles := Some obs\<rparr>
            | (obs, True) \<Rightarrow>
                (case (if obs = [] then create_obstacles (g1\<lparr>obstacles := Some obs\<rparr>)
                       else Some (g1\<lparr>obstacles := Some obs\<rparr>)) of
                   None \<Rightarrow> g1\<lparr>obstacles := Some obs\<rparr>
                 | Some g2 \<Rightarrow> g2\<lparr>paused := True\<rparr>)))"

definition load_saved_state :: "game \<Rightarrow> game" where
  "load_saved_state g =
     (case save_file g of
        NoFile \<Rightarrow> g
      | Unparsable \<Rightarrow> g
      | Undecodable \<Rightarrow> g
      | Scalar \<Rightarrow> g
      | JString s \<Rightarrow> g
      | JArray xs \<Rightarrow> g
      | Parsed game_state \<Rightarrow>
          (case apply_keybinds (restore_attributes game_state g) of
             None \<Rightarrow> restore_attributes game_state g
           | Some g1 \<Rightarrow> restore_obstacles game_state g1))"

section \<open>Starting a session\<close>

definition setup_game :: "sprites \<Rightarrow> bool \<Rightarrow> game \<Rightarrow> game option" where
  "setup_game sp load_state g = do {
     let g1 = g\<lparr>canvas := Some Alive, dino_y := Some 248, dino_jump := Some False,
                 obstacles := Some [], game_running := True, score := Some 0,
                 paused := False, dino := Some (75, 248 + 25),
                 obstacle_speed := Some 5\<rparr>;
     let g2 = after speed_increase_interval IncreaseSpeed g1;
     g3 \<leftarrow> apply_keybinds g2;
     g4 \<leftarrow> (if load_state then Some (load_saved_state g3) else create_obstacles g3);
     g5 \<leftarrow> increase_speed g4;
     g6 \<leftarrow> update_game sp g5;
     increment_score g6
   }"

text \<open>\<open>start_game\<close> and \<open>load_game\<close> destroy the widgets of the window and set the
  game up; \<open>save_name_and_start\<close> takes the text of the name entry.\<close>

definition start_game :: "sprites \<Rightarrow> game \<Rightarrow> game option" where
  "start_game sp g = setup_game sp False g"

definition save_name_and_start :: "sprites \<Rightarrow> string \<Rightarrow> game \<Rightarrow> game option" where
  "save_name_and_start sp name_entry g =
     start_game sp (g\<lparr>player_name := Some (if name_entry \<noteq> [] then name_entry else ''Player'')\<rparr>)"

definition load_game :: "sprites \<Rightarrow> game \<Rightarrow> game option" where
  "load_game sp g = setup_game sp True g"

text \<open>\<open>main_menu\<close> destroys every widget of the window, the canvas among them, and
  applies the key bindings; the menu widgets it builds are not part of the state.\<close>

definition main_menu :: "game \<Rightarrow> game option" where
  "main_menu g = do {
     let g1 = g\<lparr>canvas := map_option (\<lambda>_. Destroyed) (canvas g)\<rparr>;
     apply_keybinds g1
   }"

text \<open>The state \<open>main_menu\<close> gives the Load Game button: normal if
  \<open>os.path.exists(SAVE_FILE)\<close>, disabled otherwise.\<close>

definition load_button_enabled :: "game \<Rightarrow> bool" where
  "load_button_enabled g = (save_file g \<noteq> NoFile)"

definition save_and_quit :: "game \<Rightarrow> game option" where
  "save_and_quit g = main_menu (save_game_state g)"

text \<open>\<open>save_keybinds\<close>; the arguments are the three entry texts after
  \<open>.strip().lower()\<close>.\<close>

definition save_keybinds :: "string \<Rightarrow> string \<Rightarrow> string \<Rightarrow> game \<Rightarrow> game option" where
  "save_keybinds jump_entry pause_entry boss_entry g = do {
     let new_keybinds =
       [(''jump'', if jump_entry \<noteq> [] then jump_entry else ''space''),
        (''pause'', if pause_entry \<noteq> [] then pause_entry else ''p''),
        (''boss_key'', if boss_entry \<noteq> [] then boss_entry else ''b'')];
     let g1 = g\<lparr>keybinds := dict_update (keybinds g) new_keybinds\<rparr>;
     g2 \<leftarrow> apply_keybinds g1;
     main_menu (save_game_state g2)
   }"

text \<open>\<open>DinoGame.__init__\<close>: the arguments are what the process finds, the save file,
  whether it can be written, and the entropy. \<open>new_game\<close> is the object after the
  attribute assignments at the head of the constructor.\<close>

definition new_game :: "file_content \<Rightarrow> bool \<Rightarrow> nat list \<Rightarrow> game" where
  "new_game f w r =
     \<lparr>leaderboard = [], paused = False, keybinds = default_keybinds,
      game_running = False, saved_state = False, invincible = False,
      player_name = None, canvas = None, dino_y = None, dino_jump = None,
      dino_speed = None, dino = None, obstacles = None, score = None,
      obstacle_speed = None, scheduled = [], save_file = f, writable = w,
      rng = r\<rparr>"

definition DinoGame_init :: "file_content \<Rightarrow> bool \<Rightarrow> nat list \<Rightarrow> game option" where
  "DinoGame_init f w r = do {
     g1 \<leftarrow> load_initial_state (new_game f w r);
     g2 \<leftarrow> main_menu g1;
     apply_keybinds g2
   }"

section \<open>Auxiliary notions for the statements\<close>

text \<open>
  What one pass of the obstacle loop does to a position, at obstacle speed \<open>v\<close>: an
  obstacle that moved below 0 sits at an integer position between 800 and 1100 (both
  included) at height 340, any other one has moved left by \<open>v\<close>.
\<close>

definition recycled_or_moved :: "rat \<Rightarrow> point \<Rightarrow> point \<Rightarrow> bool" where
  "recycled_or_moved v old new =
     (if fst old - v < 0
      then snd new = 340 \<and> 800 \<le> fst new \<and> fst new \<le> 1100 \<and> of_int \<lfloor>fst new\<rfloor> = fst new
      else new = (fst old - v, snd old))"

text \<open>The attributes that neither the obstacle loop nor \<open>game_over\<close> assigns, and the
  ones that only \<open>game_over\<close> assigns.\<close>

definition same_actor :: "game \<Rightarrow> game \<Rightarrow> bool" where
  "same_actor g g' =
     (dino_y g' = dino_y g \<and> dino_jump g' = dino_jump g \<and> dino_speed g' = dino_speed g \<and>
      dino g' = dino g \<and> obstacle_speed g' = obstacle_speed g \<and> paused g' = paused g \<and>
      invincible g' = invincible g \<and> scheduled g' = scheduled g \<and> canvas g' = canvas g \<and>
      player_name g' = player_name g \<and> score g' = score g \<and> keybinds g' = keybinds g \<and>
      writable g' = writable g)"

definition same_session :: "game \<Rightarrow> game \<Rightarrow> bool" where
  "same_session g g' =
     (game_running g' = game_running g \<and> leaderboard g' = leaderboard g \<and>
      save_file g' = save_file g \<and> saved_state g' = saved_state g)"

text \<open>
  Concrete data for the examples. The sprites are images anchored at their centre, as
  \<open>create_image\<close> places them, 120 by 150 pixels for the dino and 100 by 100 for the
  rock (sizes picked for the examples). \<open>demo_game\<close> is a running session with the dino
  on the ground and both obstacles inside its hit box.
\<close>

definition image_bbox :: "int \<Rightarrow> int \<Rightarrow> point \<Rightarrow> box" where
  "image_bbox w h p =
     (\<lfloor>fst p\<rfloor> - w div 2, \<lfloor>snd p\<rfloor> - h div 2, \<lfloor>fst p\<rfloor> + w div 2, \<lfloor>snd p\<rfloor> + h div 2)"

definition demo_sprites :: sprites where
  "demo_sprites = \<lparr>dino_bbox = image_bbox 120 150, obstacle_bbox = image_bbox 100 100\<rparr>"

definition demo_game :: game where
  "demo_game =
     \<lparr>leaderboard = [], paused = False, keybinds = default_keybinds, game_running = True,
      saved_state = False, invincible = False, player_name = Some ''Ann'',
      canvas = Some Alive, dino_y = Some 248, dino_jump = Some False, dino_speed = None,
      dino = Some (75, 274), obstacles = Some [(80, 340), (90, 340)], score = Some 7,
      obstacle_speed = Some (23 / 4), scheduled = [], save_file = NoFile, writable = True,
      rng = []\<rparr>"

text \<open>
  The collision test in the words of the specification: a box shrunk inward by a
  horizontal and a vertical margin, and the strict overlap of two rectangles on both
  axes.
\<close>

definition spec_shrink :: "int \<Rightarrow> int \<Rightarrow> box \<Rightarrow> box" where
  "spec_shrink h v bx =
     (case bx of (xMin, yMin, xMax, yMax) \<Rightarrow> (xMin + h, yMin + v, xMax - h, yMax - v))"

definition spec_overlap :: "box \<Rightarrow> box \<Rightarrow> bool" where
  "spec_overlap a b =
     (case a of (axMin, ayMin, axMax, ayMax) \<Rightarrow>
      case b of (bxMin, byMin, bxMax, byMax) \<Rightarrow>
        axMax > bxMin \<and> axMin < bxMax \<and> ayMax > byMin \<and> ayMin < byMax)"

text \<open>\<open>repeat n f\<close> runs a callback \<open>n\<close> times in a row, stopping if it raises.\<close>

fun repeat :: "nat \<Rightarrow> (game \<Rightarrow> game option) \<Rightarrow> game \<Rightarrow> game option" where
  "repeat 0 f g = Some g"
| "repeat (Suc n) f g = f g \<bind> repeat n f"

text \<open>Resume eligibility in the words of the specification: the file holds a snapshot
  with at least a \<open>score\<close> field and a \<open>keybinds\<close> field.\<close>

definition valid_for_resume :: "file_content \<Rightarrow> bool" where
  "valid_for_resume f =
     (case f of Parsed s \<Rightarrow> s_score s \<noteq> None \<and> s_keybinds s \<noteq> None | _ \<Rightarrow> False)"

text \<open>
  \<open>reproduces g g2\<close>: the session \<open>g2\<close> has the eight fields of \<open>g\<close> that the snapshot
  carries. An attribute that \<open>g\<close> does not have counts with the default
  \<open>save_game_state\<close> writes for it; for an attribute that exists, \<open>getd (Some v) d\<close>
  is \<open>v\<close>. The obstacles are those of \<open>g\<close> if its canvas is alive and it has any;
  otherwise there are two of them.
\<close>

definition reproduces :: "game \<Rightarrow> game \<Rightarrow> bool" where
  "reproduces g g2 =
     (player_name g2 = Some (getd (player_name g) ''Player'') \<and>
      score g2 = Some (getd (score g) 0) \<and>
      dino_y g2 = Some (getd (dino_y g) 300) \<and>
      dino_jump g2 = Some (getd (dino_jump g) False) \<and>
      dino_speed g2 = Some (getd (dino_speed g) 0) \<and>
      obstacle_speed g2 = Some (getd (obstacle_speed g) 5) \<and>
      keybinds g2 = keybinds g \<and>
      leaderboard g2 = leaderboard g \<and>
      (if canvas g = Some Alive \<and> getd (obstacles g) [] \<noteq> []
       then obstacles g2 = obstacles g
       else map_option length (obstacles g2) = Some 2))"

section \<open>Sessions as a transition system\<close>

text \<open>
  What can happen to a session once it is set up: a timer callback fires or a bound key
  is pressed. The order and the timing of the events are left open, so every run of the
  program is a run of this system.
\<close>

datatype event =
  Tick | ScoreTick | SpeedTick | InvincibilityEnds | KeyJump | KeyPause | KeyBoss |
  KeyChar string

fun fire :: "sprites \<Rightarrow> event \<Rightarrow> game \<Rightarrow> game option" where
  "fire sp Tick g = update_game sp g"
| "fire sp ScoreTick g = increment_score g"
| "fire sp SpeedTick g = increase_speed g"
| "fire sp InvincibilityEnds g = deactivate_invincibility g"
| "fire sp KeyJump g = jump g"
| "fire sp KeyPause g = pause sp g"
| "fire sp KeyBoss g = boss_key g"
| "fire sp (KeyChar c) g = handle_cheat_code c g"

fun run :: "sprites \<Rightarrow> event list \<Rightarrow> game \<Rightarrow> game option" where
  "run sp [] g = Some g"
| "run sp (e # es) g = fire sp e g \<bind> run sp es"

text \<open>The states of sessions started fresh, from the menu, by \<open>save_name_and_start\<close>.\<close>

inductive reachable :: "sprites \<Rightarrow> game \<Rightarrow> bool" for sp :: sprites where
  start: "save_name_and_start sp name_entry g0 = Some g \<Longrightarrow> reachable sp g"
| step: "reachable sp g \<Longrightarrow> fire sp e g = Some g' \<Longrightarrow> reachable sp g'"




text \<open>
  \<open>cruising g iv x1 x2 rs\<close>: a running, unpaused session of player Ann at score 1 and
  obstacle speed 5.75, the dino on the ground, two obstacles at \<open>x1\<close> and \<open>x2\<close>, nothing
  on the leaderboard, \<open>invincible\<close> being \<open>iv\<close> and the unused entropy \<open>rs\<close>.
\<close>

definition cruising :: "game \<Rightarrow> bool \<Rightarrow> rat \<Rightarrow> rat \<Rightarrow> nat list \<Rightarrow> bool" where
  "cruising g iv x1 x2 rs =
     (canvas g = Some Alive \<and> game_running g \<and> \<not> paused g \<and> invincible g = iv \<and>
      dino_jump g = Some False \<and> dino_y g = Some 248 \<and>
      obstacles g = Some [(x1, 340), (x2, 340)] \<and> obstacle_speed g = Some (23 / 4) \<and>
      rng g = rs \<and> player_name g = Some ''Ann'' \<and> score g = Some 1 \<and>
      leaderboard g = [] \<and> save_file g = NoFile)"

section \<open>Frame lemmas\<close>

lemma randint_range:
  assumes "randint a b g = (n, g')" and "a \<le> b"
  shows "a \<le> n \<and> n \<le> b"
proof (cases "rng g")
  case Nil
  with assms show ?thesis by (simp add: randint_def)
next
  case (Cons r rs)
  have "0 < nat (b - a + 1)" using assms(2) by simp
  then have "r mod nat (b - a + 1) < nat (b - a + 1)" by (rule mod_less_divisor)
  then have "int (r mod nat (b - a + 1)) < b - a + 1" using assms(2) by linarith
  moreover have "n = a + int (r mod nat (b - a + 1))"
    using assms(1) Cons by (simp add: randint_def)
  ultimately show ?thesis by simp
qed

lemma randint_frame:
  assumes "randint a b g = (n, g')"
  shows "\<exists>rs. g' = g\<lparr>rng := rs\<rparr>"
proof (cases "rng g")
  case Nil
  with assms have "g' = g" by (simp add: randint_def)
  then have "g' = g\<lparr>rng := rng g\<rparr>" by simp
  then show ?thesis by blast
next
  case (Cons r rs)
  with assms have "g' = g\<lparr>rng := rs\<rparr>" by (simp add: randint_def)
  then show ?thesis by blast
qed

lemma game_over_frame:
  assumes "game_over g = Some g'"
  shows "\<exists>f s l. g' = g\<lparr>game_running := False, save_file := f, saved_state := s, leaderboard := l\<rparr>"
proof -
  from assms obtain name sc where ns: "player_name g = Some name" "score g = Some sc"
    by (auto simp: game_over_def Let_def canvas_alive_def split: bind_splits if_splits)
  show ?thesis
  proof (cases "save_file g = NoFile")
    case True
    with assms ns have "g' = g\<lparr>game_running := False, save_file := save_file g, saved_state := saved_state g,
        leaderboard := take 5 (sorted_reverse snd (leaderboard g @ [(name, sc)]))\<rparr>"
      by (auto simp: game_over_def Let_def canvas_alive_def split: bind_splits if_splits)
    then show ?thesis by blast
  next
    case False
    with assms ns have "g' = g\<lparr>game_running := False, save_file := NoFile, saved_state := False,
        leaderboard := take 5 (sorted_reverse snd (leaderboard g @ [(name, sc)]))\<rparr>"
      by (auto simp: game_over_def Let_def canvas_alive_def split: bind_splits if_splits)
    then show ?thesis by blast
  qed
qed

lemma obstacle_tick_cases:
  assumes "obstacle_tick sp i g = Some g'" "obstacles g = Some obs" "obstacle_speed g = Some v"
  shows "\<exists>p rs d. dino g = Some d \<and>
     (if fst (obs ! i) - v < 0 then (\<exists>n. 800 \<le> n \<and> n \<le> 1100 \<and> p = (of_int n, 340))
      else p = (fst (obs ! i) - v, snd (obs ! i))) \<and>
     (if check_collision (invincible g) (dino_bbox sp d) (obstacle_bbox sp p)
      then game_over (g\<lparr>rng := rs, obstacles := Some (obs[i := p])\<rparr>) = Some g'
      else g' = g\<lparr>rng := rs, obstacles := Some (obs[i := p])\<rparr>)"
proof -
  obtain x y where xy: "obs ! i = (x, y)" by (cases "obs ! i")
  from assms obtain d where d: "dino g = Some d"
    by (cases "dino g") (auto simp: obstacle_tick_def Let_def canvas_alive_def randint_def
        split: bind_splits if_splits prod.splits list.splits)
  show ?thesis
  proof (cases "x - v < 0")
    case False
    let ?p = "(x - v, y)"
    have "g = g\<lparr>rng := rng g\<rparr>" by simp
    from assms xy d False
    have "if check_collision (invincible g) (dino_bbox sp d) (obstacle_bbox sp ?p)
      then game_over (g\<lparr>rng := rng g, obstacles := Some (obs[i := ?p])\<rparr>) = Some g'
      else g' = g\<lparr>rng := rng g, obstacles := Some (obs[i := ?p])\<rparr>"
      by (auto simp: obstacle_tick_def Let_def canvas_alive_def split: bind_splits if_splits)
    with d xy False show ?thesis by (intro exI[of _ ?p] exI[of _ "rng g"] exI[of _ d]) simp
  next
    case True
    obtain n gr where r: "randint 800 1100 g = (n, gr)" by (cases "randint 800 1100 g")
    then have rg: "800 \<le> n \<and> n \<le> 1100" using randint_range by fastforce
    from r obtain rs where gr: "gr = g\<lparr>rng := rs\<rparr>" using randint_frame by blast
    let ?p = "(of_int n :: rat, 340 :: rat)"
    from assms xy d True r gr
    have "if check_collision (invincible g) (dino_bbox sp d) (obstacle_bbox sp ?p)
      then game_over (g\<lparr>rng := rs, obstacles := Some (obs[i := ?p])\<rparr>) = Some g'
      else g' = g\<lparr>rng := rs, obstacles := Some (obs[i := ?p])\<rparr>"
      by (auto simp: obstacle_tick_def Let_def canvas_alive_def split: bind_splits if_splits)
    with d xy True rg show ?thesis by (intro exI[of _ ?p] exI[of _ rs] exI[of _ d]) auto
  qed
qed

lemma obstacle_tick_summary:
  assumes "obstacle_tick sp i g = Some g'" "obstacles g = Some obs" "obstacle_speed g = Some v"
  shows "\<exists>p. obstacles g' = Some (obs[i := p]) \<and> recycled_or_moved v (obs ! i) p \<and>
           same_actor g g' \<and> (invincible g \<longrightarrow> same_session g g') \<and>
           (game_running g' \<longrightarrow> game_running g)"
proof -
  from obstacle_tick_cases[OF assms] obtain p rs d where
    p: "if fst (obs ! i) - v < 0 then (\<exists>n. 800 \<le> n \<and> n \<le> 1100 \<and> p = (of_int n, 340))
      else p = (fst (obs ! i) - v, snd (obs ! i))"
    and g': "if check_collision (invincible g) (dino_bbox sp d) (obstacle_bbox sp p)
      then game_over (g\<lparr>rng := rs, obstacles := Some (obs[i := p])\<rparr>) = Some g'
      else g' = g\<lparr>rng := rs, obstacles := Some (obs[i := p])\<rparr>"
    by blast
  have rule: "recycled_or_moved v (obs ! i) p"
    using p by (auto simp: recycled_or_moved_def)
  show ?thesis
  proof (cases "check_collision (invincible g) (dino_bbox sp d) (obstacle_bbox sp p)")
    case False
    with g' have "g' = g\<lparr>rng := rs, obstacles := Some (obs[i := p])\<rparr>" by simp
    with rule show ?thesis
      by (intro exI[of _ p]) (simp add: same_actor_def same_session_def)
  next
    case True
    then have ninv: "\<not> invincible g" by (auto simp: check_collision_def)
    from True g' have "game_over (g\<lparr>rng := rs, obstacles := Some (obs[i := p])\<rparr>) = Some g'"
      by simp
    from game_over_frame[OF this] obtain f s l where
      "g' = g\<lparr>rng := rs, obstacles := Some (obs[i := p]), game_running := False,
               save_file := f, saved_state := s, leaderboard := l\<rparr>" by auto
    with rule ninv show ?thesis
      by (intro exI[of _ p]) (simp add: same_actor_def same_session_def)
  qed
qed


lemma obstacle_tick_frame:
  assumes "obstacle_tick sp i g = Some g'"
  shows "same_actor g g' \<and> (invincible g \<longrightarrow> same_session g g') \<and>
         (game_running g' \<longrightarrow> game_running g) \<and>
         map_option length (obstacles g') = map_option length (obstacles g)"
proof -
  from assms obtain obs where o: "obstacles g = Some obs"
    by (cases "obstacles g") (simp_all add: obstacle_tick_def)
  from assms o obtain v where v: "obstacle_speed g = Some v"
    by (cases "obstacle_speed g") (simp_all add: obstacle_tick_def)
  from obstacle_tick_summary[OF assms o v] o show ?thesis by auto
qed

lemma obstacles_loop_frame:
  assumes "obstacles_loop sp js g = Some g'"
  shows "same_actor g g' \<and> (invincible g \<longrightarrow> same_session g g') \<and>
         (game_running g' \<longrightarrow> game_running g) \<and>
         map_option length (obstacles g') = map_option length (obstacles g)"
  using assms
proof (induction js arbitrary: g)
  case Nil
  then show ?case by (simp add: same_actor_def same_session_def)
next
  case (Cons j js)
  from Cons.prems obtain g1 where
    t: "obstacle_tick sp j g = Some g1" and l: "obstacles_loop sp js g1 = Some g'"
    by (auto split: bind_splits)
  from obstacle_tick_frame[OF t] Cons.IH[OF l] show ?case
    by (auto simp: same_actor_def same_session_def)
qed

lemma jump_mechanics_frame:
  assumes "jump_mechanics g = Some g1"
  shows "\<exists>y j v. g1 = g\<lparr>dino_y := y, dino_jump := j, dino_speed := v\<rparr>"
proof (cases "dino_jump g = Some True")
  case False
  with assms have "g1 = g" by (auto simp: jump_mechanics_def split: bind_splits if_splits)
  then have "g1 = g\<lparr>dino_y := dino_y g, dino_jump := dino_jump g, dino_speed := dino_speed g\<rparr>"
    by simp
  then show ?thesis by blast
next
  case True
  with assms obtain y v where yv: "dino_y g = Some y" "dino_speed g = Some v"
    by (auto simp: jump_mechanics_def split: bind_splits)
  show ?thesis
  proof (cases "y + v \<ge> 248")
    case True
    with assms \<open>dino_jump g = Some True\<close> yv
    have "g1 = g\<lparr>dino_y := Some 248, dino_jump := Some False, dino_speed := Some (v + gravity)\<rparr>"
      by (intro game.equality) (auto simp: jump_mechanics_def Let_def)
    then show ?thesis by blast
  next
    case False
    with assms \<open>dino_jump g = Some True\<close> yv
    have "g1 = g\<lparr>dino_y := Some (y + v), dino_jump := Some True, dino_speed := Some (v + gravity)\<rparr>"
      by (intro game.equality) (auto simp: jump_mechanics_def Let_def)
    then show ?thesis by blast
  qed
qed

lemma update_game_running:
  assumes "update_game sp g = Some g'" "game_running g" "\<not> paused g"
  shows "\<exists>g1 y obs g3. jump_mechanics g = Some g1 \<and> dino_y g1 = Some y \<and>
           canvas g1 = Some Alive \<and> obstacles g1 = Some obs \<and>
           obstacles_loop sp [0..<length obs] (g1\<lparr>dino := Some (75, y + 26)\<rparr>) = Some g3 \<and>
           g' = after 30 UpdateGame g3"
proof -
  from assms obtain g1 where g1: "jump_mechanics g = Some g1"
    by (cases "jump_mechanics g") (simp_all add: update_game_def)
  from assms g1 obtain y where y: "dino_y g1 = Some y"
    by (cases "dino_y g1") (simp_all add: update_game_def)
  from assms g1 y have c: "canvas g1 = Some Alive"
    by (simp add: update_game_def canvas_alive_def split: if_splits)
  from assms g1 y c obtain obs where o: "obstacles g1 = Some obs"
    by (cases "obstacles g1") (simp_all add: update_game_def canvas_alive_def)
  from assms g1 y c o obtain g3 where
    "obstacles_loop sp [0..<length obs] (g1\<lparr>dino := Some (75, y + 26)\<rparr>) = Some g3"
    "g' = after 30 UpdateGame g3"
    by (cases "obstacles_loop sp [0..<length obs] (g1\<lparr>dino := Some (75, y + 26)\<rparr>)")
       (simp_all add: update_game_def canvas_alive_def)
  with g1 y c o show ?thesis by blast
qed

lemma update_game_frame:
  assumes "update_game sp g = Some g'" "game_running g" "\<not> paused g"
  shows "scheduled g' = scheduled g @ [(30, UpdateGame)] \<and>
         (invincible g \<longrightarrow> same_session g g') \<and> invincible g' = invincible g \<and>
         map_option length (obstacles g') = map_option length (obstacles g)"
proof -
  from update_game_running[OF assms] obtain g1 y obs g3 where
    ph: "jump_mechanics g = Some g1"
    and o1: "obstacles g1 = Some obs"
    and lp: "obstacles_loop sp [0..<length obs] (g1\<lparr>dino := Some (75, y + 26)\<rparr>) = Some g3"
    and g': "g' = after 30 UpdateGame g3"
    by blast
  from jump_mechanics_frame[OF ph] obtain yy j vv where
    g1: "g1 = g\<lparr>dino_y := yy, dino_jump := j, dino_speed := vv\<rparr>" by blast
  from obstacles_loop_frame[OF lp] g1 g' show ?thesis
    by (simp add: same_actor_def same_session_def after_def)
qed


section \<open>Claims\<close>

text \<open>
  C2. While \<open>invincible\<close> is true a tick never ends the session, whatever the bounding
  boxes are: \<open>update_game\<close> leaves \<open>game_running\<close>, the leaderboard and the save file
  as they were and \<open>invincible\<close> stays set, and \<open>check_collision\<close> answers false for
  every pair of boxes.
\<close>
theorem invincible_never_game_over:
  assumes "invincible g" and "update_game sp g = Some g'"
  shows "game_running g' = game_running g \<and> leaderboard g' = leaderboard g \<and>
         save_file g' = save_file g \<and> invincible g' \<and>
         check_collision (invincible g) d b = False"
proof (cases "\<not> game_running g \<or> paused g")
  case True
  with assms(2) have "g' = g" by (auto simp: update_game_def)
  with assms(1) show ?thesis by (simp add: check_collision_def)
next
  case False
  then have run: "game_running g" "\<not> paused g" by simp_all
  from update_game_frame[OF assms(2) run] assms(1)
  show ?thesis by (simp add: same_session_def check_collision_def)
qed

theorem invincible_never_game_over_witness:
  "invincible (demo_game\<lparr>invincible := True\<rparr>) \<and>
   check_collision False (dino_bbox demo_sprites (75, 274)) (obstacle_bbox demo_sprites (80 - 23 / 4, 340)) \<and>
   map_option game_running (update_game demo_sprites (demo_game\<lparr>invincible := True\<rparr>)) = Some True \<and>
   map_option leaderboard (update_game demo_sprites (demo_game\<lparr>invincible := True\<rparr>)) = Some []"
proof -
  let ?g = "demo_game\<lparr>invincible := True\<rparr>"
  have i: "invincible ?g" by simp
  have "update_game demo_sprites ?g \<noteq> None" by code_simp
  then obtain g' where u: "update_game demo_sprites ?g = Some g'" by blast
  have c: "check_collision False (dino_bbox demo_sprites (75, 274)) (obstacle_bbox demo_sprites (80 - 23 / 4, 340))"
    by code_simp
  from invincible_never_game_over[OF i u] have "game_running g' = game_running ?g" "leaderboard g' = leaderboard ?g"
    by simp_all
  then have "game_running g'" "leaderboard g' = []" by (simp_all add: demo_game_def)
  with i c u show ?thesis by simp
qed

text \<open>
  C1, as stated: the detector answers from the two boxes alone. It does not: with
  \<open>invincible\<close> set it answers false for two identical boxes whose shrunk rectangles
  overlap.
\<close>

theorem collision_not_pure_counterexample:
  "check_collision True (0, 0, 100, 100) (0, 0, 100, 100) = False \<and>
   spec_overlap (spec_shrink 30 7 (0, 0, 100, 100)) (spec_shrink 30 30 (0, 0, 100, 100))"
  by (simp add: check_collision_def spec_overlap_def spec_shrink_def)

text \<open>
  C1, amended: whenever \<open>invincible\<close> is false, \<open>check_collision\<close> shrinks the actor box
  by 30 horizontally and 7 vertically, the obstacle box by 30 on all sides, and answers
  true exactly when the shrunk rectangles overlap strictly on both axes, for every pair
  of boxes.
\<close>

theorem collision_is_shrunk_overlap:
  "check_collision False a b = spec_overlap (spec_shrink 30 7 a) (spec_shrink 30 30 b)"
  by (cases a; cases b) (simp add: check_collision_def spec_overlap_def spec_shrink_def Let_def)

text \<open>
  C9, as stated: the next tick is scheduled only if the session is still running. In
  \<open>demo_game\<close> the tick ends the session and schedules the next tick all the same.
\<close>

theorem reschedule_after_game_over_counterexample:
  "game_running demo_game \<and> \<not> paused demo_game \<and>
   map_option game_running (update_game demo_sprites demo_game) = Some False \<and>
   map_option scheduled (update_game demo_sprites demo_game) = Some [(30, UpdateGame)]"
  by code_simp

text \<open>
  C9, amended: \<open>update_game\<close> changes nothing and schedules nothing when the game is not
  running or is paused; otherwise it schedules exactly one next tick, 30 ms later, at its
  end, also when this tick ended the session.
\<close>

theorem update_game_noop_or_reschedules:
  "(\<not> game_running g \<or> paused g \<longrightarrow> update_game sp g = Some g) \<and>
   (game_running g \<and> \<not> paused g \<and> update_game sp g = Some g' \<longrightarrow>
      scheduled g' = scheduled g @ [(30, UpdateGame)])"
proof (intro conjI impI)
  assume "\<not> game_running g \<or> paused g"
  then show "update_game sp g = Some g" by (auto simp: update_game_def)
next
  assume "game_running g \<and> \<not> paused g \<and> update_game sp g = Some g'"
  then show "scheduled g' = scheduled g @ [(30, UpdateGame)]"
    using update_game_frame[of sp g g'] by simp
qed

theorem update_game_noop_or_reschedules_witness:
  "update_game demo_sprites (demo_game\<lparr>paused := True\<rparr>) = Some (demo_game\<lparr>paused := True\<rparr>) \<and>
   map_option scheduled (update_game demo_sprites (demo_game\<lparr>obstacles := Some [(500, 340)]\<rparr>))
     = Some [(30, UpdateGame)] \<and>
   map_option game_running (update_game demo_sprites (demo_game\<lparr>obstacles := Some [(500, 340)]\<rparr>))
     = Some True"
proof -
  let ?p = "demo_game\<lparr>paused := True\<rparr>"
  let ?g = "demo_game\<lparr>obstacles := Some [(500, 340)]\<rparr>"
  have p: "\<not> game_running ?p \<or> paused ?p" by simp
  have r: "game_running ?g" "\<not> paused ?g" by (simp_all add: demo_game_def)
  have "update_game demo_sprites ?g \<noteq> None" by code_simp
  then obtain g' where u: "update_game demo_sprites ?g = Some g'" by blast
  have run: "map_option game_running (update_game demo_sprites ?g) = Some True" by code_simp
  from update_game_noop_or_reschedules[of ?p demo_sprites] p
  have 1: "update_game demo_sprites ?p = Some ?p" by blast
  from update_game_noop_or_reschedules[of ?g demo_sprites g'] r u
  have "scheduled g' = scheduled ?g @ [(30, UpdateGame)]" by blast
  then have 2: "scheduled g' = [(30, UpdateGame)]" by (simp add: demo_game_def)
  from 1 2 u run show ?thesis by simp
qed

lemma increase_speed_frame:
  assumes "increase_speed g = Some g'"
  shows "\<exists>v s. g' = g\<lparr>obstacle_speed := v, scheduled := s\<rparr>"
proof -
  from assms obtain v where v: "obstacle_speed g = Some v"
    by (cases "obstacle_speed g") (simp_all add: increase_speed_def)
  show ?thesis
  proof (cases "v < max_speed \<and> \<not> paused g")
    case True
    with assms v have "g' = g\<lparr>obstacle_speed := Some (v + 75 / 100),
        scheduled := scheduled g @ [(speed_increase_interval, IncreaseSpeed)]\<rparr>"
      by (simp add: increase_speed_def after_def)
    then show ?thesis by blast
  next
    case False
    with assms v have "g' = g\<lparr>obstacle_speed := obstacle_speed g,
        scheduled := scheduled g @ [(speed_increase_interval, IncreaseSpeed)]\<rparr>"
      by (auto simp add: increase_speed_def after_def)
    then show ?thesis by blast
  qed
qed

lemma increment_score_frame:
  assumes "increment_score g = Some g'"
  shows "\<exists>sc s. g' = g\<lparr>score := sc, scheduled := s\<rparr>"
proof (cases "game_running g \<and> \<not> paused g")
  case False
  with assms have "g' = g\<lparr>score := score g, scheduled := scheduled g\<rparr>"
    by (auto simp: increment_score_def)
  then show ?thesis by blast
next
  case True
  with assms obtain sc where "score g = Some sc"
    by (cases "score g") (simp_all add: increment_score_def)
  with assms True have "g' = g\<lparr>score := Some (sc + 1), scheduled := scheduled g @ [(100, IncrementScore)]\<rparr>"
    by (simp add: increment_score_def after_def canvas_alive_def split: if_splits)
  then show ?thesis by blast
qed

lemma apply_keybinds_frame: "apply_keybinds g = Some g' \<Longrightarrow> g' = g"
  by (auto simp: apply_keybinds_def split: bind_splits)

lemma create_obstacles_empty:
  assumes "create_obstacles g = Some g'" "obstacles g = Some []"
  shows "\<exists>x1 x2 rs. g' = g\<lparr>rng := rs, obstacles := Some [(of_int x1, 340), (of_int x2, 340)]\<rparr> \<and>
           750 \<le> x1 \<and> x1 \<le> 850 \<and> x1 + 400 \<le> x2 \<and> x2 \<le> x1 + 800"
proof -
  obtain x1 g1 where r1: "randint 750 850 g = (x1, g1)" by (cases "randint 750 850 g")
  obtain d1 g2 where r2: "randint 400 800 g1 = (d1, g2)" by (cases "randint 400 800 g1")
  obtain d2 g3 where r3: "randint 400 800 g2 = (d2, g3)" by (cases "randint 400 800 g2")
  from randint_frame[OF r1] randint_frame[OF r2] randint_frame[OF r3]
  obtain rs where g3: "g3 = g\<lparr>rng := rs\<rparr>" by auto
  from randint_range[OF r1] randint_range[OF r2]
  have rg: "750 \<le> x1 \<and> x1 \<le> 850 \<and> x1 + 400 \<le> x1 + d1 \<and> x1 + d1 \<le> x1 + 800" by simp
  from assms r1 r2 r3 g3
  have "g' = g\<lparr>rng := rs, obstacles := Some [(of_int x1, 340), (of_int (x1 + d1), 340)]\<rparr>"
    by (simp add: create_obstacles_def Let_def split: bind_splits)
  with rg show ?thesis by blast
qed

lemma fresh_session_shape:
  assumes "setup_game sp False g = Some g'"
  shows "map_option length (obstacles g') = Some 2 \<and>
         canvas g' = Some Alive \<and> player_name g' = player_name g \<and>
         dino_y g' = Some 248 \<and> dino_jump g' = Some False \<and> \<not> paused g' \<and>
         obstacle_speed g' = Some (23 / 4) \<and> score g' \<noteq> None \<and> dino g' \<noteq> None \<and>
         scheduled g' = scheduled g @ [(5000, IncreaseSpeed), (5000, IncreaseSpeed), (30, UpdateGame)]
            @ (if game_running g' then [(100, IncrementScore)] else [])"
proof -
  let ?g1 = "g\<lparr>canvas := Some Alive, dino_y := Some 248, dino_jump := Some False,
                 obstacles := Some [], game_running := True, score := Some 0,
                 paused := False, dino := Some (75, 248 + 25),
                 obstacle_speed := Some 5\<rparr>"
  let ?g2 = "after speed_increase_interval IncreaseSpeed ?g1"
  from assms obtain g3 g4 g5 g6 where
    k: "apply_keybinds ?g2 = Some g3" and c: "create_obstacles g3 = Some g4"
    and i: "increase_speed g4 = Some g5" and u: "update_game sp g5 = Some g6"
    and s: "increment_score g6 = Some g'"
    by (auto simp: setup_game_def Let_def split: bind_splits)
  from apply_keybinds_frame[OF k] have g3: "g3 = ?g2" .
  have "obstacles g3 = Some []" by (simp add: g3 after_def)
  from create_obstacles_empty[OF c this] obtain x1 x2 rs where
    g4: "g4 = g3\<lparr>rng := rs, obstacles := Some [(of_int x1, 340), (of_int x2, 340)]\<rparr>" by blast
  have "obstacle_speed g4 = Some 5" "\<not> paused g4" by (simp_all add: g4 g3 after_def)
  with i have g5: "g5 = after speed_increase_interval IncreaseSpeed (g4\<lparr>obstacle_speed := Some (5 + 75 / 100)\<rparr>)"
    by (simp add: increase_speed_def max_speed_def)
  have run5: "game_running g5" "\<not> paused g5" by (simp_all add: g5 g4 g3 after_def)
  from update_game_running[OF u run5] obtain h1 y obs h3 where
    ph: "jump_mechanics g5 = Some h1"
    and lp: "obstacles_loop sp [0..<length obs] (h1\<lparr>dino := Some (75, y + 26)\<rparr>) = Some h3"
    and o1: "obstacles h1 = Some obs"
    and g6: "g6 = after 30 UpdateGame h3"
    by blast
  have j5: "dino_jump g5 = Some False" by (simp add: g5 g4 g3 after_def)
  with ph have h1: "h1 = g5" by (simp add: jump_mechanics_def)
  from obstacles_loop_frame[OF lp] have
    a: "same_actor (h1\<lparr>dino := Some (75, y + 26)\<rparr>) h3"
    and l: "map_option length (obstacles h3) = map_option length (obstacles (h1\<lparr>dino := Some (75, y + 26)\<rparr>))"
    by simp_all
  have sc6: "score g6 = Some 0" "canvas g6 = Some Alive" "\<not> paused g6"
    using a by (simp_all add: same_actor_def g6 h1 g5 g4 g3 after_def)
  from s sc6 have g': "g' = (if game_running g6
      then after 100 IncrementScore (g6\<lparr>score := Some (0 + 1)\<rparr>) else g6)"
    by (simp add: increment_score_def canvas_alive_def split: if_splits)
  have len: "map_option length (obstacles g') = Some 2"
    using l by (auto simp: g' g6 h1 g5 g4 after_def numeral_2_eq_2)
  have act: "dino_y g' = Some 248 \<and> dino_jump g' = Some False \<and> canvas g' = Some Alive \<and>
     player_name g' = player_name g \<and> \<not> paused g' \<and> obstacle_speed g' = Some (23 / 4) \<and>
     score g' \<noteq> None \<and> dino g' \<noteq> None"
    using a by (simp add: same_actor_def g' g6 h1 g5 g4 g3 after_def)
  have sch: "scheduled g' = scheduled g @ [(5000, IncreaseSpeed), (5000, IncreaseSpeed), (30, UpdateGame)]
            @ (if game_running g' then [(100, IncrementScore)] else [])"
    using a by (simp add: same_actor_def g' g6 h1 g5 g4 g3 after_def speed_increase_interval_def)
  from len act sch show ?thesis by blast
qed




lemma increase_speed_unpaused:
  assumes "obstacle_speed g = Some v" "\<not> paused g"
  shows "increase_speed g = Some (after speed_increase_interval IncreaseSpeed
           (if v < 25 then g\<lparr>obstacle_speed := Some (v + 3 / 4)\<rparr> else g))"
  using assms by (simp add: increase_speed_def max_speed_def)

lemma ramp_steps:
  assumes "obstacle_speed g = Some (5 + 3 / 4 * of_nat m)" "\<not> paused g"
  shows "\<exists>g'. repeat k increase_speed g = Some g' \<and> \<not> paused g' \<and>
           obstacle_speed g' = Some (5 + 3 / 4 * of_nat (if m < 27 then min (m + k) 27 else m))"
  using assms
proof (induction k arbitrary: g m)
  case 0
  then show ?case by simp
next
  case (Suc k)
  let ?v = "5 + 3 / 4 * (of_nat m :: rat)"
  let ?g1 = "after speed_increase_interval IncreaseSpeed
           (if ?v < 25 then g\<lparr>obstacle_speed := Some (?v + 3 / 4)\<rparr> else g)"
  have s: "increase_speed g = Some ?g1"
    using increase_speed_unpaused[OF Suc.prems] .
  have lt: "?v < 25 \<longleftrightarrow> m < 27"
  proof -
    have "?v < 25 \<longleftrightarrow> (of_nat m :: rat) < 80 / 3" by (simp add: field_simps)
    also have "\<dots> \<longleftrightarrow> (of_nat m :: rat) < of_nat 27"
    proof
      assume "(of_nat m :: rat) < 80 / 3"
      then have "(of_nat m :: rat) < of_nat 27" by simp
      then show "(of_nat m :: rat) < of_nat 27" .
    next
      assume "(of_nat m :: rat) < of_nat 27"
      then have "m < 27" by (simp only: of_nat_less_iff)
      then have "m \<le> 26" by simp
      then have "(of_nat m :: rat) \<le> of_nat 26" by (simp only: of_nat_le_iff)
      then show "(of_nat m :: rat) < 80 / 3" by simp
    qed
    also have "\<dots> \<longleftrightarrow> m < 27" by (simp only: of_nat_less_iff)
    finally show ?thesis .
  qed
  show ?case
  proof (cases "m < 27")
    case True
    with lt have g1: "?g1 = after speed_increase_interval IncreaseSpeed (g\<lparr>obstacle_speed := Some (?v + 3 / 4)\<rparr>)"
      by simp
    have v1: "obstacle_speed ?g1 = Some (5 + 3 / 4 * of_nat (Suc m))"
      unfolding g1 by (simp add: after_def field_simps)
    have p1: "\<not> paused ?g1" using Suc.prems(2) by (simp add: after_def)
    from Suc.IH[OF v1 p1] obtain g' where
      r: "repeat k increase_speed ?g1 = Some g'" and p: "\<not> paused g'"
      and v: "obstacle_speed g' = Some (5 + 3 / 4 * of_nat (if Suc m < 27 then min (Suc m + k) 27 else Suc m))"
      by blast
    have "(if Suc m < 27 then min (Suc m + k) 27 else Suc m) = min (m + Suc k) 27"
      using True by auto
    with v True have "obstacle_speed g' = Some (5 + 3 / 4 * of_nat (if m < 27 then min (m + Suc k) 27 else m))"
      by simp
    with r p s show ?thesis by simp
  next
    case False
    with lt have g1: "?g1 = after speed_increase_interval IncreaseSpeed g" by simp
    have v1: "obstacle_speed ?g1 = Some (5 + 3 / 4 * of_nat m)"
      unfolding g1 using Suc.prems(1) by (simp add: after_def)
    have p1: "\<not> paused ?g1" using Suc.prems(2) by (simp add: after_def)
    from Suc.IH[OF v1 p1] False s show ?thesis by simp
  qed
qed

text \<open>
  C3, on the code: \<open>setup_game\<close> sets the speed to 5, schedules \<open>increase_speed\<close> and
  then calls it directly as well, so every fresh session starts at 5.75 with two pending
  ramp timers; and since the speed is only compared with \<open>max_speed\<close> before 0.75 is
  added, \<open>k\<close> further unpaused calls take it to \<open>5 + 0.75 * min (k + 1) 27\<close>, which is
  25.25 from the 26th call on, above 25.
\<close>

theorem speed_ramp_diverges:
  assumes "save_name_and_start sp name_entry g0 = Some g"
  shows "obstacle_speed g = Some (23 / 4) \<and>
         take 2 (drop (length (scheduled g0)) (scheduled g))
           = [(5000, IncreaseSpeed), (5000, IncreaseSpeed)] \<and>
         (\<exists>g'. repeat k increase_speed g = Some g' \<and>
               obstacle_speed g' = Some (5 + 3 / 4 * of_nat (min (k + 1) 27))) \<and>
         (\<exists>g'. repeat 26 increase_speed g = Some g' \<and>
               obstacle_speed g' = Some (101 / 4) \<and> 101 / 4 > max_speed)"
proof -
  from assms have su: "setup_game sp False (g0\<lparr>player_name := Some (if name_entry \<noteq> [] then name_entry else ''Player'')\<rparr>) = Some g"
    by (simp add: save_name_and_start_def start_game_def)
  from fresh_session_shape[OF su] have
    v: "obstacle_speed g = Some (23 / 4)" and p: "\<not> paused g"
    and sch: "scheduled g = scheduled g0 @ [(5000, IncreaseSpeed), (5000, IncreaseSpeed), (30, UpdateGame)]
            @ (if game_running g then [(100, IncrementScore)] else [])"
    by simp_all
  have v1: "obstacle_speed g = Some (5 + 3 / 4 * of_nat 1)" using v by simp
  have r: "\<exists>g'. repeat j increase_speed g = Some g' \<and>
               obstacle_speed g' = Some (5 + 3 / 4 * of_nat (min (j + 1) 27))" for j
    using ramp_steps[OF v1 p, of j] by (auto simp: add.commute)
  from r[of 26] have "\<exists>g'. repeat 26 increase_speed g = Some g' \<and>
               obstacle_speed g' = Some (101 / 4) \<and> 101 / 4 > max_speed"
    by (auto simp: max_speed_def)
  with v sch r[of k] show ?thesis by simp
qed

theorem speed_ramp_diverges_witness:
  "\<exists>g0 g. DinoGame_init NoFile True [] = Some g0 \<and>
     save_name_and_start demo_sprites ''Ann'' g0 = Some g \<and>
     obstacle_speed g = Some (23 / 4) \<and>
     (\<exists>g'. repeat 26 increase_speed g = Some g' \<and> obstacle_speed g' = Some (101 / 4))"
proof -
  have "DinoGame_init NoFile True [] \<noteq> None" by code_simp
  then obtain g0 where i: "DinoGame_init NoFile True [] = Some g0" by blast
  have "DinoGame_init NoFile True [] \<bind> save_name_and_start demo_sprites ''Ann'' \<noteq> None"
    by code_simp
  with i obtain g where s: "save_name_and_start demo_sprites ''Ann'' g0 = Some g" by auto
  from speed_ramp_diverges[OF s, of 0] i s show ?thesis by blast
qed

lemma apply_keybinds_default: "keybinds g = default_keybinds \<Longrightarrow> apply_keybinds g = Some g"
  by (simp add: apply_keybinds_def default_keybinds_def)

lemma init_without_valid_file:
  assumes "f = NoFile \<or> f = Unparsable \<or> (\<exists>s. f = Parsed s \<and> (s_score s = None \<or> s_keybinds s = None))"
  shows "load_initial_state (new_game f w r) = Some (new_game f w r)"
    and "DinoGame_init f w r = Some (new_game f w r)"
proof -
  show l: "load_initial_state (new_game f w r) = Some (new_game f w r)"
    using assms by (auto simp: load_initial_state_def new_game_def)
  have k: "keybinds (new_game f w r) = default_keybinds" by (simp add: new_game_def)
  have c: "new_game f w r\<lparr>canvas := map_option (\<lambda>_. Destroyed) (canvas (new_game f w r))\<rparr> = new_game f w r"
    by (simp add: new_game_def)
  show "DinoGame_init f w r = Some (new_game f w r)"
    by (simp add: DinoGame_init_def l main_menu_def c apply_keybinds_default[OF k])
qed

text \<open>
  The cases \<open>load_initial_state\<close> handles: when it returns, \<open>saved_state\<close> says whether
  the file holds a snapshot with both fields; with no file, with text that is not JSON
  and with a snapshot that lacks one of the two fields the object is the one it would
  be without a file, and the constructor returns.
\<close>

lemma saved_state_when_returns:
  "(load_initial_state (new_game f w r) = Some g \<longrightarrow> saved_state g = valid_for_resume f) \<and>
   (f = NoFile \<or> f = Unparsable \<or>
    (\<exists>s. f = Parsed s \<and> (s_score s = None \<or> s_keybinds s = None)) \<longrightarrow>
      load_initial_state (new_game f w r)
        = map_option (\<lambda>g. g\<lparr>save_file := f\<rparr>) (load_initial_state (new_game NoFile w r)) \<and>
      map_option leaderboard (load_initial_state (new_game f w r)) = Some [] \<and>
      map_option keybinds (load_initial_state (new_game f w r)) = Some default_keybinds \<and>
      DinoGame_init f w r \<noteq> None)"
proof (intro conjI impI)
  assume "load_initial_state (new_game f w r) = Some g"
  then show "saved_state g = valid_for_resume f"
    by (cases f) (auto simp: load_initial_state_def valid_for_resume_def new_game_def
        split: if_splits)
next
  assume a: "f = NoFile \<or> f = Unparsable \<or>
    (\<exists>s. f = Parsed s \<and> (s_score s = None \<or> s_keybinds s = None))"
  have n: "load_initial_state (new_game NoFile w r) = Some (new_game NoFile w r)"
    by (rule init_without_valid_file(1)) simp
  have e: "new_game NoFile w r\<lparr>save_file := f\<rparr> = new_game f w r" by (simp add: new_game_def)
  show "load_initial_state (new_game f w r)
        = map_option (\<lambda>g. g\<lparr>save_file := f\<rparr>) (load_initial_state (new_game NoFile w r))"
    by (simp add: init_without_valid_file(1)[OF a] n e)
  show "map_option leaderboard (load_initial_state (new_game f w r)) = Some []"
    by (simp add: init_without_valid_file(1)[OF a]) (simp add: new_game_def)
  show "map_option keybinds (load_initial_state (new_game f w r)) = Some default_keybinds"
    by (simp add: init_without_valid_file(1)[OF a]) (simp add: new_game_def)
  show "DinoGame_init f w r \<noteq> None"
    by (simp add: init_without_valid_file(2)[OF a])
qed

lemma recreate_saved:
  "recreate_obstacles
     (map (\<lambda>(x, y). \<lparr>oi_x = Some x, oi_y = Some y, oi_image_index = Some 0\<rparr>) ps) acc
   = (acc @ ps, True)"
  by (induction ps arbitrary: acc) (auto simp: getd_def)

lemma recreate_saved_obstacles:
  "recreate_obstacles (saved_obstacles g) [] =
     (if canvas g = Some Alive then getd (obstacles g) [] else [], True)"
  by (auto simp: saved_obstacles_def recreate_saved split: option.splits canvas_state.splits)

lemma restore_obstacles_alive:
  assumes "canvas g = Some Alive" "recreate_obstacles (getd (s_obstacles s) []) [] = (obs, True)"
  shows "\<exists>g'. restore_obstacles s g = g'\<lparr>paused := True\<rparr> \<and>
           (if obs = [] then create_obstacles (g\<lparr>obstacles := Some []\<rparr>) = Some g'
            else g' = g\<lparr>obstacles := Some obs\<rparr>)"
proof (cases "obs = []")
  case False
  with assms show ?thesis by (simp add: restore_obstacles_def Let_def)
next
  case True
  let ?g = "g\<lparr>obstacles := Some []\<rparr>"
  obtain x1 g1 where r1: "randint 750 850 ?g = (x1, g1)" by (cases "randint 750 850 ?g")
  obtain d1 g2 where r2: "randint 400 800 g1 = (d1, g2)" by (cases "randint 400 800 g1")
  obtain d2 g3 where r3: "randint 400 800 g2 = (d2, g3)" by (cases "randint 400 800 g2")
  from randint_frame[OF r1] assms(1) have "canvas g1 = Some Alive" by auto
  with r1 r2 r3 have "create_obstacles ?g \<noteq> None"
    by (simp add: create_obstacles_def Let_def canvas_alive_def)
  then obtain g' where c: "create_obstacles ?g = Some g'" by blast
  with assms True show ?thesis by (simp add: restore_obstacles_def Let_def)
qed

lemma load_game_restores:
  assumes fl: "save_file g = Parsed s"
    and keys: "apply_keybinds g = Some g"
    and kb: "s_keybinds s = Some (keybinds g)"
    and rc: "recreate_obstacles (getd (s_obstacles s) []) [] = (obs, True)"
  shows "\<exists>g2. load_game sp g = Some g2 \<and>
           player_name g2 = Some (getd (s_player_name s) ''Player'') \<and>
           score g2 = Some (getd (s_score s) 0) \<and>
           dino_y g2 = Some (getd (s_dino_y s) 248) \<and>
           dino_jump g2 = Some (getd (s_dino_jump s) False) \<and>
           dino_speed g2 = Some (getd (s_dino_speed s) 0) \<and>
           obstacle_speed g2 = Some (getd (s_obstacle_speed s) 5) \<and>
           keybinds g2 = keybinds g \<and> leaderboard g2 = leaderboard g \<and> paused g2 \<and>
           (if obs = [] then map_option length (obstacles g2) = Some 2
            else obstacles g2 = Some obs)"
proof -
  define g2 where "g2 = after speed_increase_interval IncreaseSpeed
     (g\<lparr>canvas := Some Alive, dino_y := Some 248, dino_jump := Some False,
        obstacles := Some [], game_running := True, score := Some 0,
        paused := False, dino := Some (75, 248 + 25), obstacle_speed := Some 5\<rparr>)"
  have k2: "apply_keybinds g2 = Some g2"
    using keys by (auto simp: g2_def apply_keybinds_def after_def split: bind_splits)
  define r where "r = restore_attributes s g2"
  have kr: "keybinds r = keybinds g"
    using kb by (simp add: r_def g2_def restore_attributes_def getd_def after_def)
  have k3: "apply_keybinds r = Some r"
    using keys kr by (auto simp: apply_keybinds_def split: bind_splits)
  have ca: "canvas r = Some Alive" by (simp add: r_def g2_def restore_attributes_def after_def)
  from restore_obstacles_alive[OF ca rc] obtain g' where
    ro: "restore_obstacles s r = g'\<lparr>paused := True\<rparr>"
    and g': "if obs = [] then create_obstacles (r\<lparr>obstacles := Some []\<rparr>) = Some g'
            else g' = r\<lparr>obstacles := Some obs\<rparr>"
    by blast
  have f2: "save_file g2 = Parsed s" using fl by (simp add: g2_def after_def)
  have ls: "load_saved_state g2 = g'\<lparr>paused := True\<rparr>"
    using k3 ro by (simp add: load_saved_state_def f2 r_def)
  have fr: "\<exists>rs ps. g' = r\<lparr>rng := rs, obstacles := Some ps\<rparr> \<and>
      (if obs = [] then length ps = 2 else ps = obs)"
  proof (cases "obs = []")
    case True
    with g' have c: "create_obstacles (r\<lparr>obstacles := Some []\<rparr>) = Some g'" by simp
    have "obstacles (r\<lparr>obstacles := Some []\<rparr>) = Some []" by simp
    from create_obstacles_empty[OF c this] obtain x1 x2 rs where
      "g' = r\<lparr>rng := rs, obstacles := Some [(of_int x1, 340), (of_int x2, 340)]\<rparr>" by auto
    moreover have "length [(of_int x1 :: rat, 340 :: rat), (of_int x2, 340)] = 2" by simp
    ultimately show ?thesis using True by (metis (full_types))
  next
    case False
    with g' have "g' = r\<lparr>rng := rng r, obstacles := Some obs\<rparr>" by simp
    with False show ?thesis
      by (intro exI[of _ "rng r"] exI[of _ obs]) simp
  qed
  then obtain rs ob where g'e: "g' = r\<lparr>rng := rs, obstacles := Some ob\<rparr>"
    and ob: "if obs = [] then length ob = 2 else ob = obs" by blast
  define g4 where "g4 = g'\<lparr>paused := True\<rparr>"
  have p4: "paused g4" by (simp add: g4_def)
  have v4: "obstacle_speed g4 = Some (getd (s_obstacle_speed s) 5)"
    by (simp add: g4_def g'e r_def restore_attributes_def)
  define g5 where "g5 = after speed_increase_interval IncreaseSpeed g4"
  have p5: "paused g5" using p4 by (simp add: g5_def after_def)
  have i: "increase_speed g4 = Some g5"
    using v4 p4 by (simp add: increase_speed_def g5_def)
  have u: "update_game sp g5 = Some g5" using p5 by (simp add: update_game_def)
  have sc: "increment_score g5 = Some g5" using p5 by (simp add: increment_score_def)
  have su: "setup_game sp True g = do {
     g3 \<leftarrow> apply_keybinds g2;
     g4 \<leftarrow> Some (load_saved_state g3);
     g5 \<leftarrow> increase_speed g4;
     g6 \<leftarrow> update_game sp g5;
     increment_score g6 }"
    by (simp add: setup_game_def Let_def g2_def)
  have lg: "load_game sp g = Some g5"
    unfolding load_game_def su by (simp add: k2 ls g4_def[symmetric] i u sc)
  have "player_name g5 = Some (getd (s_player_name s) ''Player'') \<and>
           score g5 = Some (getd (s_score s) 0) \<and>
           dino_y g5 = Some (getd (s_dino_y s) 248) \<and>
           dino_jump g5 = Some (getd (s_dino_jump s) False) \<and>
           dino_speed g5 = Some (getd (s_dino_speed s) 0) \<and>
           obstacle_speed g5 = Some (getd (s_obstacle_speed s) 5) \<and>
           keybinds g5 = keybinds g \<and> leaderboard g5 = leaderboard g \<and> paused g5"
    using kb by (simp add: g5_def g4_def g'e r_def g2_def restore_attributes_def after_def getd_def)
  moreover have "if obs = [] then map_option length (obstacles g5) = Some 2
            else obstacles g5 = Some obs"
    using ob by (auto simp: g5_def g4_def g'e after_def)
  ultimately show ?thesis using lg by blast
qed

lemma load_game_of_saved:
  assumes sf: "save_file g0 = Parsed (game_state_of g)"
    and keys: "apply_keybinds g0 = Some g0"
    and kb: "keybinds g0 = keybinds g" and lb: "leaderboard g0 = leaderboard g"
  shows "\<exists>g2. load_game sp g0 = Some g2 \<and> reproduces g g2 \<and> paused g2"
proof -
  define obs where "obs = (if canvas g = Some Alive then getd (obstacles g) [] else [])"
  have rc: "recreate_obstacles (getd (s_obstacles (game_state_of g)) []) [] = (obs, True)"
    by (simp add: game_state_of_def getd_def recreate_saved_obstacles obs_def)
  have k: "s_keybinds (game_state_of g) = Some (keybinds g0)"
    by (simp add: game_state_of_def kb)
  from load_game_restores[OF sf keys k rc, of sp] obtain g2 where
    l: "load_game sp g0 = Some g2"
    and f: "player_name g2 = Some (getd (s_player_name (game_state_of g)) ''Player'')"
      "score g2 = Some (getd (s_score (game_state_of g)) 0)"
      "dino_y g2 = Some (getd (s_dino_y (game_state_of g)) 248)"
      "dino_jump g2 = Some (getd (s_dino_jump (game_state_of g)) False)"
      "dino_speed g2 = Some (getd (s_dino_speed (game_state_of g)) 0)"
      "obstacle_speed g2 = Some (getd (s_obstacle_speed (game_state_of g)) 5)"
      "keybinds g2 = keybinds g0" "leaderboard g2 = leaderboard g0" "paused g2"
    and o: "if obs = [] then map_option length (obstacles g2) = Some 2
            else obstacles g2 = Some obs"
    by blast
  have "if canvas g = Some Alive \<and> getd (obstacles g) [] \<noteq> []
       then obstacles g2 = obstacles g
       else map_option length (obstacles g2) = Some 2"
    using o by (auto simp: obs_def getd_def split: option.splits if_splits)
  with f kb lb have "reproduces g g2"
    by (simp add: reproduces_def game_state_of_def getd_def)
  with l f(9) show ?thesis by blast
qed

lemma init_shape:
  assumes "DinoGame_init f w r = Some g0"
  shows "\<exists>l k s. g0 = (new_game f w r)\<lparr>leaderboard := l, keybinds := k, saved_state := s\<rparr>"
    and "apply_keybinds g0 = Some g0"
    and "\<And>p. f = Parsed p \<Longrightarrow> valid_for_resume f \<Longrightarrow>
           leaderboard g0 = getd (s_leaderboard p) [] \<and> keybinds g0 = getd (s_keybinds p) default_keybinds"
proof -
  from assms obtain g1 g2 where
    l: "load_initial_state (new_game f w r) = Some g1" and m: "main_menu g1 = Some g2"
    and a: "apply_keybinds g2 = Some g0"
    by (auto simp: DinoGame_init_def split: bind_splits)
  have eq0: "g0 = g2" using apply_keybinds_frame[OF a] .
  from m have eq1: "g2 = g1\<lparr>canvas := map_option (\<lambda>_. Destroyed) (canvas g1)\<rparr>"
    by (auto simp: main_menu_def Let_def dest: apply_keybinds_frame)
  have sh: "\<exists>l k s. g1 = (new_game f w r)\<lparr>leaderboard := l, keybinds := k, saved_state := s\<rparr>"
  proof (cases f)
    case NoFile
    with l have "g1 = (new_game f w r)\<lparr>leaderboard := [], keybinds := default_keybinds, saved_state := False\<rparr>"
      by (auto simp: load_initial_state_def new_game_def)
    then show ?thesis by blast
  next
    case Unparsable
    with l have "g1 = (new_game f w r)\<lparr>leaderboard := [], keybinds := default_keybinds, saved_state := False\<rparr>"
      by (auto simp: load_initial_state_def new_game_def)
    then show ?thesis by blast
  next
    case Undecodable
    with l show ?thesis by (auto simp: load_initial_state_def new_game_def)
  next
    case Scalar
    with l show ?thesis by (auto simp: load_initial_state_def new_game_def)
  next
    case (JString t)
    with l have "g1 = (new_game f w r)\<lparr>leaderboard := [], keybinds := default_keybinds, saved_state := False\<rparr>"
      by (auto simp: load_initial_state_def new_game_def split: if_splits)
    then show ?thesis by blast
  next
    case (JArray xs)
    with l have "g1 = (new_game f w r)\<lparr>leaderboard := [], keybinds := default_keybinds, saved_state := False\<rparr>"
      by (auto simp: load_initial_state_def new_game_def split: if_splits)
    then show ?thesis by blast
  next
    case (Parsed p)
    show ?thesis
    proof (cases "s_score p \<noteq> None \<and> s_keybinds p \<noteq> None")
      case True
      with l Parsed have "g1 = (new_game f w r)\<lparr>leaderboard := getd (s_leaderboard p) [],
          keybinds := getd (s_keybinds p) default_keybinds, saved_state := True\<rparr>"
        by (auto simp: load_initial_state_def new_game_def)
      then show ?thesis by blast
    next
      case False
      with l Parsed have "g1 = (new_game f w r)\<lparr>leaderboard := [],
          keybinds := default_keybinds, saved_state := False\<rparr>"
        by (auto simp: load_initial_state_def new_game_def)
      then show ?thesis by blast
    qed
  qed
  then obtain l' k' s' where g1: "g1 = (new_game f w r)\<lparr>leaderboard := l', keybinds := k', saved_state := s'\<rparr>"
    by blast
  have "canvas g1 = None" by (simp add: g1 new_game_def)
  with eq1 have eq2: "g2 = g1" by simp
  from g1 eq0 eq2 show "\<exists>l k s. g0 = (new_game f w r)\<lparr>leaderboard := l, keybinds := k, saved_state := s\<rparr>"
    by blast
  from a eq0 show "apply_keybinds g0 = Some g0" by simp
  show "leaderboard g0 = getd (s_leaderboard p) [] \<and> keybinds g0 = getd (s_keybinds p) default_keybinds"
    if "f = Parsed p" "valid_for_resume f" for p
    using that l eq0 eq2
    by (auto simp: load_initial_state_def valid_for_resume_def new_game_def)
qed

text \<open>
  C7. Saving a session and loading it again gives a session with the same player name,
  score, vertical position, jumping flag, vertical velocity, obstacle speed, key
  bindings and leaderboard, both when the game is loaded in the same run (after
  \<open>save_and_quit\<close>) and when the program is started anew on the written file (the
  constructor reads leaderboard and key bindings, \<open>load_game\<close> the rest). The obstacles
  come back if the canvas was alive and had any; if the saved list is empty,
  \<open>create_obstacles\<close> spawns exactly 2. The load returns, and leaves the game paused.
\<close>

theorem save_load_round_trip:
  "(writable g \<and> save_and_quit g = Some gm \<longrightarrow>
      (\<exists>g2. load_game sp gm = Some g2 \<and> reproduces g g2 \<and> paused g2)) \<and>
   (writable g \<and> DinoGame_init (save_file (save_game_state g)) w r = Some g0 \<longrightarrow>
      (\<exists>g2. load_game sp g0 = Some g2 \<and> reproduces g g2 \<and> paused g2))"
proof (intro conjI impI)
  assume a: "writable g \<and> save_and_quit g = Some gm"
  then have m: "main_menu (save_game_state g) = Some gm" by (simp add: save_and_quit_def)
  define g1 where "g1 = (save_game_state g)\<lparr>canvas := map_option (\<lambda>_. Destroyed) (canvas (save_game_state g))\<rparr>"
  from m have ak: "apply_keybinds g1 = Some gm" by (simp add: main_menu_def Let_def g1_def)
  from apply_keybinds_frame[OF ak] have gm: "gm = g1" .
  have sf: "save_file gm = Parsed (game_state_of g)"
    using a by (simp add: gm g1_def save_game_state_def)
  have kb: "keybinds gm = keybinds g" "leaderboard gm = leaderboard g"
    using a by (simp_all add: gm g1_def save_game_state_def)
  from ak gm have keys: "apply_keybinds gm = Some gm" by simp
  from load_game_of_saved[OF sf keys kb]
  show "\<exists>g2. load_game sp gm = Some g2 \<and> reproduces g g2 \<and> paused g2" .
next
  assume a: "writable g \<and> DinoGame_init (save_file (save_game_state g)) w r = Some g0"
  then have f: "save_file (save_game_state g) = Parsed (game_state_of g)"
    by (simp add: save_game_state_def)
  with a have i: "DinoGame_init (Parsed (game_state_of g)) w r = Some g0" by simp
  have v: "valid_for_resume (Parsed (game_state_of g))"
    by (simp add: valid_for_resume_def game_state_of_def)
  from init_shape(1)[OF i] have sf: "save_file g0 = Parsed (game_state_of g)"
    by (auto simp: new_game_def)
  from init_shape(3)[OF i refl v] have kb: "keybinds g0 = keybinds g" "leaderboard g0 = leaderboard g"
    by (simp_all add: game_state_of_def getd_def)
  from load_game_of_saved[OF sf init_shape(2)[OF i] kb]
  show "\<exists>g2. load_game sp g0 = Some g2 \<and> reproduces g g2 \<and> paused g2" .
qed

theorem save_load_round_trip_witness:
  "writable demo_game \<and>
   (\<exists>gm g2. save_and_quit demo_game = Some gm \<and> load_game demo_sprites gm = Some g2 \<and>
      player_name g2 = Some ''Ann'' \<and> score g2 = Some 7 \<and> dino_y g2 = Some 248 \<and>
      dino_jump g2 = Some False \<and> obstacle_speed g2 = Some (23 / 4) \<and>
      keybinds g2 = default_keybinds \<and> leaderboard g2 = [] \<and>
      obstacles g2 = Some [(80, 340), (90, 340)]) \<and>
   (\<exists>g0 g2. DinoGame_init (save_file (save_game_state (demo_game\<lparr>canvas := Some Destroyed\<rparr>))) True [5]
          = Some g0 \<and>
      load_game demo_sprites g0 = Some g2 \<and> score g2 = Some 7 \<and>
      map_option length (obstacles g2) = Some 2)"
proof -
  have w: "writable demo_game" by (simp add: demo_game_def)
  have "save_and_quit demo_game \<noteq> None" by code_simp
  then obtain gm where s: "save_and_quit demo_game = Some gm" by blast
  from save_load_round_trip[of demo_game gm demo_sprites] w s
  obtain g2 where l: "load_game demo_sprites gm = Some g2" and r: "reproduces demo_game g2"
    by blast
  from r have f: "player_name g2 = Some ''Ann'' \<and> score g2 = Some 7 \<and> dino_y g2 = Some 248 \<and>
      dino_jump g2 = Some False \<and> obstacle_speed g2 = Some (23 / 4) \<and>
      keybinds g2 = default_keybinds \<and> leaderboard g2 = [] \<and>
      obstacles g2 = Some [(80, 340), (90, 340)]"
    by (simp add: reproduces_def demo_game_def getd_def)
  let ?d = "demo_game\<lparr>canvas := Some Destroyed\<rparr>"
  have wd: "writable ?d" by (simp add: demo_game_def)
  have "DinoGame_init (save_file (save_game_state ?d)) True [5] \<noteq> None" by code_simp
  then obtain g0 where i: "DinoGame_init (save_file (save_game_state ?d)) True [5] = Some g0"
    by blast
  from save_load_round_trip[of ?d _ demo_sprites True "[5]" g0] wd i
  obtain g3 where l3: "load_game demo_sprites g0 = Some g3" and r3: "reproduces ?d g3"
    by blast
  from r3 have f3: "score g3 = Some 7 \<and> map_option length (obstacles g3) = Some 2"
    by (simp add: reproduces_def demo_game_def getd_def)
  from w s l f i l3 f3 show ?thesis by blast
qed

lemma save_keybinds_shape:
  assumes "save_keybinds je pe be g = Some g1" "writable g"
  shows "\<exists>k. apply_keybinds g1 = Some g1 \<and>
           save_file g1 = Parsed (game_state_of (g\<lparr>keybinds := k\<rparr>)) \<and>
           keybinds g1 = k \<and> leaderboard g1 = leaderboard g \<and>
           canvas g1 = map_option (\<lambda>_. Destroyed) (canvas g)"
proof -
  define k where "k = dict_update (keybinds g)
       [(''jump'', if je \<noteq> [] then je else ''space''),
        (''pause'', if pe \<noteq> [] then pe else ''p''),
        (''boss_key'', if be \<noteq> [] then be else ''b'')]"
  from assms(1) obtain g2 where a: "apply_keybinds (g\<lparr>keybinds := k\<rparr>) = Some g2"
    and m: "main_menu (save_game_state g2) = Some g1"
    by (auto simp: save_keybinds_def Let_def k_def split: bind_splits)
  from apply_keybinds_frame[OF a] have g2: "g2 = g\<lparr>keybinds := k\<rparr>" .
  define g3 where "g3 = (save_game_state g2)\<lparr>canvas := map_option (\<lambda>_. Destroyed) (canvas (save_game_state g2))\<rparr>"
  from m have ak: "apply_keybinds g3 = Some g1" by (simp add: main_menu_def Let_def g3_def)
  from apply_keybinds_frame[OF ak] have g1: "g1 = g3" .
  have "save_file g1 = Parsed (game_state_of (g\<lparr>keybinds := k\<rparr>)) \<and>
           keybinds g1 = k \<and> leaderboard g1 = leaderboard g \<and>
           canvas g1 = map_option (\<lambda>_. Destroyed) (canvas g)"
    using assms(2) by (simp add: g1 g3_def g2 save_game_state_def)
  moreover from ak g1 have "apply_keybinds g1 = Some g1" by simp
  ultimately show ?thesis by blast
qed

text \<open>
  C10. Saved while \<open>dino_y\<close>, \<open>score\<close> and \<open>dino_jump\<close> do not exist, the snapshot holds
  the vertical position 300, which is neither the ground value 248 nor the 248 that
  loading puts in for a missing position, with score 0 and jumping false; it has a
  \<open>score\<close> and a \<open>keybinds\<close> field, so the next start sets \<open>saved_state\<close>. That is the
  case when \<open>save_keybinds\<close> runs on the object the constructor returns; loading that
  file gives a session standing at 300 and not jumping.
\<close>

theorem save_without_player_actor:
  "(dino_y g = None \<and> score g = None \<and> dino_jump g = None \<and> writable g \<longrightarrow>
      save_file (save_game_state g) = Parsed (game_state_of g) \<and>
      s_dino_y (game_state_of g) = Some 300 \<and> (300 :: rat) \<noteq> 248 \<and>
      s_score (game_state_of g) = Some 0 \<and>
      s_dino_jump (game_state_of g) = Some False \<and>
      s_keybinds (game_state_of g) \<noteq> None \<and>
      valid_for_resume (save_file (save_game_state g)) \<and>
      map_option saved_state (load_initial_state (new_game (save_file (save_game_state g)) w r))
        = Some True \<and>
      dino_y (restore_attributes (game_state_of g) h) = Some 300 \<and>
      dino_y (restore_attributes ((game_state_of g)\<lparr>s_dino_y := None\<rparr>) h) = Some 248) \<and>
   (DinoGame_init f True r0 = Some g0 \<and> save_keybinds je pe be g0 = Some g1 \<longrightarrow>
      dino_y g0 = None \<and> score g0 = None \<and> dino_jump g0 = None \<and>
      (\<exists>s. save_file g1 = Parsed s \<and> s_dino_y s = Some 300 \<and> s_score s = Some 0 \<and>
           s_dino_jump s = Some False \<and> s_keybinds s = Some (keybinds g1)) \<and>
      valid_for_resume (save_file g1) \<and>
      (\<exists>g2. load_game sp g1 = Some g2 \<and> dino_y g2 = Some 300 \<and> dino_jump g2 = Some False))"
proof (intro conjI impI)
  assume a: "DinoGame_init f True r0 = Some g0 \<and> save_keybinds je pe be g0 = Some g1"
  from init_shape(1)[of f True r0 g0] a obtain l k s where
    g0: "g0 = (new_game f True r0)\<lparr>leaderboard := l, keybinds := k, saved_state := s\<rparr>" by blast
  then show n: "dino_y g0 = None" "score g0 = None" "dino_jump g0 = None"
    by (simp_all add: new_game_def)
  have w: "writable g0" and c: "canvas g0 = None" by (simp_all add: g0 new_game_def)
  from a have sk: "save_keybinds je pe be g0 = Some g1" by simp
  from save_keybinds_shape[OF sk w] obtain k' where
    ak: "apply_keybinds g1 = Some g1"
    and sf: "save_file g1 = Parsed (game_state_of (g0\<lparr>keybinds := k'\<rparr>))"
    and kb: "keybinds g1 = k'" and lb: "leaderboard g1 = leaderboard g0"
    by blast
  let ?g = "g0\<lparr>keybinds := k'\<rparr>"
  show "\<exists>s. save_file g1 = Parsed s \<and> s_dino_y s = Some 300 \<and> s_score s = Some 0 \<and>
           s_dino_jump s = Some False \<and> s_keybinds s = Some (keybinds g1)"
    using sf kb n by (simp add: game_state_of_def getd_def)
  show "valid_for_resume (save_file g1)"
    using sf by (simp add: valid_for_resume_def game_state_of_def)
  have kb': "keybinds g1 = keybinds ?g" "leaderboard g1 = leaderboard ?g" using kb lb by simp_all
  from load_game_of_saved[OF sf ak kb', of sp] obtain g2 where
    "load_game sp g1 = Some g2" "reproduces ?g g2" by blast
  then show "\<exists>g2. load_game sp g1 = Some g2 \<and> dino_y g2 = Some 300 \<and> dino_jump g2 = Some False"
    using n by (auto simp: reproduces_def getd_def)
qed (auto simp: save_game_state_def game_state_of_def getd_def valid_for_resume_def
      load_initial_state_def new_game_def restore_attributes_def)

theorem save_without_player_actor_witness:
  "\<exists>g0 g1 g2. DinoGame_init NoFile True [] = Some g0 \<and>
     save_keybinds ''w'' [] ''b'' g0 = Some g1 \<and>
     map_option s_dino_y (case save_file g1 of Parsed s \<Rightarrow> Some s | _ \<Rightarrow> None) = Some (Some 300) \<and>
     valid_for_resume (save_file g1) \<and>
     load_game demo_sprites g1 = Some g2 \<and> dino_y g2 = Some 300 \<and> dino_jump g2 = Some False"
proof -
  have "DinoGame_init NoFile True [] \<noteq> None" by code_simp
  then obtain g0 where i: "DinoGame_init NoFile True [] = Some g0" by blast
  have "DinoGame_init NoFile True [] \<bind> save_keybinds ''w'' [] ''b'' \<noteq> None" by code_simp
  with i obtain g1 where s: "save_keybinds ''w'' [] ''b'' g0 = Some g1" by auto
  from save_without_player_actor[of _ _ _ _ NoFile "[]" g0 "''w''" "[]" "''b''" g1 demo_sprites] i s
  have p: "\<exists>s. save_file g1 = Parsed s \<and> s_dino_y s = Some 300 \<and> s_score s = Some 0 \<and>
           s_dino_jump s = Some False \<and> s_keybinds s = Some (keybinds g1)"
    and v: "valid_for_resume (save_file g1)"
    and l: "\<exists>g2. load_game demo_sprites g1 = Some g2 \<and> dino_y g2 = Some 300 \<and> dino_jump g2 = Some False"
    by blast+
  from p have "map_option s_dino_y (case save_file g1 of Parsed s \<Rightarrow> Some s | _ \<Rightarrow> None) = Some (Some 300)"
    by auto
  with i s v l show ?thesis by blast
qed











lemma reachable_run:
  assumes "reachable sp g" "run sp es g = Some g'"
  shows "reachable sp g'"
  using assms
proof (induction es arbitrary: g)
  case Nil
  then show ?case by simp
next
  case (Cons e es)
  from Cons.prems(2) obtain g1 where f: "fire sp e g = Some g1" and r: "run sp es g1 = Some g'"
    by (auto split: bind_splits)
  from reachable.step[OF Cons.prems(1) f] Cons.IH r show ?case by blast
qed





lemma run_append: "run sp (es @ fs) g = run sp es g \<bind> run sp fs"
  by (induction es arbitrary: g) (simp_all split: bind_splits)







lemma quiet_tick:
  assumes "cruising g iv x1 x2 rs" "23 / 4 \<le> x1" "23 / 4 \<le> x2"
    "\<not> check_collision iv (dino_bbox sp (75, 274)) (obstacle_bbox sp (x1 - 23 / 4, 340))"
    "\<not> check_collision iv (dino_bbox sp (75, 274)) (obstacle_bbox sp (x2 - 23 / 4, 340))"
  shows "\<exists>g'. update_game sp g = Some g' \<and> cruising g' iv (x1 - 23 / 4) (x2 - 23 / 4) rs"
  using assms
  by (simp add: cruising_def update_game_def jump_mechanics_def canvas_alive_def
      obstacle_tick_def Let_def upt_rec after_def)

lemma cruise:
  assumes "cruising g iv x1 x2 rs" "of_nat n * (23 / 4) \<le> x1" "of_nat n * (23 / 4) \<le> x2"
    "\<forall>k < n. \<not> check_collision iv (dino_bbox sp (75, 274))
        (obstacle_bbox sp (x1 - of_nat (Suc k) * (23 / 4), 340))"
    "\<forall>k < n. \<not> check_collision iv (dino_bbox sp (75, 274))
        (obstacle_bbox sp (x2 - of_nat (Suc k) * (23 / 4), 340))"
  shows "\<exists>g'. run sp (replicate n Tick) g = Some g' \<and>
           cruising g' iv (x1 - of_nat n * (23 / 4)) (x2 - of_nat n * (23 / 4)) rs"
  using assms
proof (induction n arbitrary: g x1 x2)
  case 0
  then show ?case by simp
next
  case (Suc n)
  have s: "(of_nat (Suc n) :: rat) * (23 / 4) = of_nat n * (23 / 4) + 23 / 4"
    by (simp add: field_simps)
  have nn: "0 \<le> (of_nat n :: rat) * (23 / 4)" by simp
  have v1: "23 / 4 \<le> x1" "23 / 4 \<le> x2"
    using Suc.prems(2,3) nn unfolding s by linarith+
  have z: "0 < Suc n" by simp
  from Suc.prems(4)[rule_format, OF z] Suc.prems(5)[rule_format, OF z] have h0:
    "\<not> check_collision iv (dino_bbox sp (75, 274)) (obstacle_bbox sp (x1 - 23 / 4, 340))"
    "\<not> check_collision iv (dino_bbox sp (75, 274)) (obstacle_bbox sp (x2 - 23 / 4, 340))"
    by simp_all
  from quiet_tick[OF Suc.prems(1) v1 h0] obtain g1 where
    t: "update_game sp g = Some g1" and c1: "cruising g1 iv (x1 - 23 / 4) (x2 - 23 / 4) rs"
    by blast
  have b: "of_nat n * (23 / 4) \<le> x1 - 23 / 4" "of_nat n * (23 / 4) \<le> x2 - 23 / 4"
    using Suc.prems(2,3) unfolding s by simp_all
  have e: "x - 23 / 4 - of_nat (Suc k) * (23 / 4) = x - of_nat (Suc (Suc k)) * (23 / 4)"
    for x :: rat and k by (simp add: field_simps)
  have h: "\<forall>k < n. \<not> check_collision iv (dino_bbox sp (75, 274))
        (obstacle_bbox sp (x1 - 23 / 4 - of_nat (Suc k) * (23 / 4), 340))"
    "\<forall>k < n. \<not> check_collision iv (dino_bbox sp (75, 274))
        (obstacle_bbox sp (x2 - 23 / 4 - of_nat (Suc k) * (23 / 4), 340))"
    unfolding e using Suc.prems(4,5) by auto
  from Suc.IH[OF c1 b h] obtain g' where
    r: "run sp (replicate n Tick) g1 = Some g'"
    and c: "cruising g' iv (x1 - 23 / 4 - of_nat n * (23 / 4)) (x2 - 23 / 4 - of_nat n * (23 / 4)) rs"
    by blast
  have e': "x - 23 / 4 - of_nat n * (23 / 4) = x - of_nat (Suc n) * (23 / 4)" for x :: rat
    by (simp add: field_simps)
  from c have "cruising g' iv (x1 - of_nat (Suc n) * (23 / 4)) (x2 - of_nat (Suc n) * (23 / 4)) rs"
    by (simp only: e')
  with t r show ?case by simp
qed

lemma tick_recycle_first:
  assumes "cruising g True x1 x2 (r # rs)" "x1 < 23 / 4" "23 / 4 \<le> x2"
  shows "\<exists>g'. update_game sp g = Some g' \<and>
           cruising g' True (of_int (800 + int (r mod 301))) (x2 - 23 / 4) rs"
  using assms
  by (simp add: cruising_def update_game_def jump_mechanics_def canvas_alive_def
      obstacle_tick_def Let_def upt_rec after_def randint_def check_collision_def)

lemma tick_recycle_second:
  assumes "cruising g True x1 x2 (r # rs)" "23 / 4 \<le> x1" "x2 < 23 / 4"
  shows "\<exists>g'. update_game sp g = Some g' \<and>
           cruising g' True (x1 - 23 / 4) (of_int (800 + int (r mod 301))) rs"
  using assms
  by (simp add: cruising_def update_game_def jump_mechanics_def canvas_alive_def
      obstacle_tick_def Let_def upt_rec after_def randint_def check_collision_def)

lemma cheat_on:
  assumes "cruising g False x1 x2 rs"
  shows "\<exists>g'. handle_cheat_code ''c'' g = Some g' \<and> cruising g' True x1 x2 rs"
  using assms
  by (simp add: cruising_def handle_cheat_code_def activate_invincibility_def canvas_alive_def
      after_def)

lemma cheat_off:
  assumes "cruising g True x1 x2 rs"
  shows "\<exists>g'. deactivate_invincibility g = Some g' \<and> cruising g' False x1 x2 rs"
  using assms
  by (simp add: cruising_def deactivate_invincibility_def canvas_alive_def)

lemma game_over_value:
  assumes "canvas g = Some Alive" "player_name g = Some n" "score g = Some s"
    "save_file g = NoFile"
  shows "game_over g = Some (g\<lparr>game_running := False,
           leaderboard := take 5 (sorted_reverse snd (leaderboard g @ [(n, s)]))\<rparr>)"
  using assms by (simp add: game_over_def Let_def canvas_alive_def)

lemma obstacle_tick_hit:
  assumes "obstacles g = Some obs" "obstacle_speed g = Some v" "canvas g = Some Alive"
    "obs ! i = (x, y)" "v \<le> x" "dino g = Some d"
    "check_collision (invincible g) (dino_bbox sp d) (obstacle_bbox sp (x - v, y))"
  shows "obstacle_tick sp i g = game_over (g\<lparr>obstacles := Some (obs[i := (x - v, y)])\<rparr>)"
  using assms by (simp add: obstacle_tick_def Let_def canvas_alive_def)

lemma leaderboard_once_twice:
  "take 5 (sorted_reverse snd ([] @ [(''Ann'', 1 :: int)])) = [(''Ann'', 1)]"
  "take 5 (sorted_reverse snd ([(''Ann'', 1 :: int)] @ [(''Ann'', 1)])) = [(''Ann'', 1), (''Ann'', 1)]"
  by (simp_all add: sorted_reverse_def)

lemma double_hit_tick:
  assumes c: "cruising g False x1 x2 rs" and x: "23 / 4 \<le> x1" "23 / 4 \<le> x2"
    and h1: "check_collision False (dino_bbox sp (75, 274)) (obstacle_bbox sp (x1 - 23 / 4, 340))"
    and h2: "check_collision False (dino_bbox sp (75, 274)) (obstacle_bbox sp (x2 - 23 / 4, 340))"
  shows "\<exists>g'. update_game sp g = Some g' \<and> leaderboard g' = [(''Ann'', 1), (''Ann'', 1)] \<and>
           \<not> game_running g'"
proof -
  define a where "a = g\<lparr>dino := Some (75, 274)\<rparr>"
  have ja: "jump_mechanics g = Some g" using c by (simp add: cruising_def jump_mechanics_def)
  define a1 where "a1 = a\<lparr>obstacles := Some [(x1 - 23 / 4, 340), (x2, 340)]\<rparr>"
  define b where "b = a1\<lparr>game_running := False, leaderboard := [(''Ann'', 1)]\<rparr>"
  define b1 where "b1 = b\<lparr>obstacles := Some [(x1 - 23 / 4, 340), (x2 - 23 / 4, 340)]\<rparr>"
  define e where "e = b1\<lparr>game_running := False, leaderboard := [(''Ann'', 1), (''Ann'', 1)]\<rparr>"
  have t0: "obstacle_tick sp 0 a = game_over a1"
  proof -
    have "obstacle_tick sp 0 a = game_over (a\<lparr>obstacles := Some ([(x1, 340), (x2, 340)][0 := (x1 - 23 / 4, 340)])\<rparr>)"
      using c x h1 by (intro obstacle_tick_hit) (simp_all add: a_def cruising_def)
    then show ?thesis by (simp add: a1_def)
  qed
  have g0: "game_over a1 = Some b"
  proof -
    have "game_over a1 = Some (a1\<lparr>game_running := False,
           leaderboard := take 5 (sorted_reverse snd (leaderboard a1 @ [(''Ann'', 1)]))\<rparr>)"
      using c by (intro game_over_value) (simp_all add: a1_def a_def cruising_def)
    moreover have "leaderboard a1 = []" using c by (simp add: a1_def a_def cruising_def)
    ultimately show ?thesis by (simp only: b_def leaderboard_once_twice)
  qed
  have t1: "obstacle_tick sp (Suc 0) b = game_over b1"
  proof -
    have "obstacle_tick sp (Suc 0) b = game_over (b\<lparr>obstacles := Some ([(x1 - 23 / 4, 340), (x2, 340)][Suc 0 := (x2 - 23 / 4, 340)])\<rparr>)"
      using c x h2 by (intro obstacle_tick_hit) (simp_all add: b_def a1_def a_def cruising_def)
    then show ?thesis by (simp add: b1_def)
  qed
  have g1: "game_over b1 = Some e"
  proof -
    have "game_over b1 = Some (b1\<lparr>game_running := False,
           leaderboard := take 5 (sorted_reverse snd (leaderboard b1 @ [(''Ann'', 1)]))\<rparr>)"
      using c by (intro game_over_value) (simp_all add: b1_def b_def a1_def a_def cruising_def)
    moreover have "leaderboard b1 = [(''Ann'', 1)]" by (simp add: b1_def b_def)
    ultimately show ?thesis by (simp only: e_def leaderboard_once_twice)
  qed
  have "update_game sp g = Some (after 30 UpdateGame e)"
    using c ja
    by (simp add: update_game_def cruising_def canvas_alive_def upt_rec t0[unfolded a_def] g0 t1 g1)
  moreover have "leaderboard (after 30 UpdateGame e) = [(''Ann'', 1), (''Ann'', 1)]"
    "\<not> game_running (after 30 UpdateGame e)"
    by (simp_all add: after_def e_def)
  ultimately show ?thesis by blast
qed

lemma demo_no_hit:
  assumes "125 \<le> x"
  shows "\<not> check_collision False (dino_bbox demo_sprites (75, 274)) (obstacle_bbox demo_sprites (x, 340))"
proof -
  from assms have "125 \<le> \<lfloor>x\<rfloor>" by (simp add: le_floor_iff)
  then show ?thesis
    by (simp add: check_collision_def demo_sprites_def image_bbox_def Let_def)
qed

lemma demo_hits:
  "check_collision False (dino_bbox demo_sprites (75, 274)) (obstacle_bbox demo_sprites (128 - 23 / 4, 340))"
  "check_collision False (dino_bbox demo_sprites (75, 274)) (obstacle_bbox demo_sprites (513 / 4 - 23 / 4, 340))"
  by code_simp+

lemma fresh_cruising:
  "\<exists>g. DinoGame_init NoFile True [0, 400, 0, 0, 300, 294]
          \<bind> save_name_and_start demo_sprites ''Ann'' = Some g \<and>
       cruising g False (2977 / 4) (6177 / 4) [0, 300, 294]"
proof -
  have "map_option (\<lambda>g. cruising g False (2977 / 4) (6177 / 4) [0, 300, 294])
      (DinoGame_init NoFile True [0, 400, 0, 0, 300, 294]
          \<bind> save_name_and_start demo_sprites ''Ann'') = Some True"
    unfolding cruising_def by code_simp
  then show ?thesis by auto
qed

text \<open>
  C4, on the code: the obstacle loop calls \<open>game_over\<close> for every obstacle that collides
  and goes on with the next one. A fresh session of player Ann, with the draws 750 and
  800 for the first obstacles and 800, 1100 and 1094 for the recycled ones: the cheat key
  is pressed and 270 ticks pass, in which the first obstacle is recycled at tick 130, the
  second at tick 269 and the first again at tick 270, which leaves them at 1094 and
  1094.25; invincibility ends; 168 ticks later they are at 128 and 128.25, and the next
  tick moves both into the hit box of the dino. \<open>game_over\<close> runs twice in that tick and
  the entry of the session is on the leaderboard twice.
\<close>

theorem game_over_twice_in_one_tick:
  "map_option leaderboard
     (DinoGame_init NoFile True [0, 400, 0, 0, 300, 294]
        \<bind> save_name_and_start demo_sprites ''Ann''
        \<bind> run demo_sprites
             (KeyChar ''c'' # replicate 129 Tick @ Tick # replicate 138 Tick @ Tick # Tick #
              InvincibilityEnds # replicate 168 Tick @ [Tick]))
     = Some [(''Ann'', 1), (''Ann'', 1)]"
proof -
  let ?sp = demo_sprites
  have nh: "\<not> check_collision True d b" for d b by (simp add: check_collision_def)
  from fresh_cruising obtain g0 where
    s: "DinoGame_init NoFile True [0, 400, 0, 0, 300, 294]
          \<bind> save_name_and_start demo_sprites ''Ann'' = Some g0"
    and c0: "cruising g0 False (2977 / 4) (6177 / 4) [0, 300, 294]" by blast
  from cheat_on[OF c0] obtain g1 where
    e1: "fire ?sp (KeyChar ''c'') g0 = Some g1"
    and c1: "cruising g1 True (2977 / 4) (6177 / 4) [0, 300, 294]" by auto
  from cruise[OF c1, of 129 ?sp] obtain g2 where
    e2: "run ?sp (replicate 129 Tick) g1 = Some g2"
    and c2: "cruising g2 True (5 / 2) (1605 / 2) [0, 300, 294]"
    by (auto simp: nh)
  from tick_recycle_first[OF c2, of ?sp] obtain g3 where
    e3: "fire ?sp Tick g2 = Some g3" and c3: "cruising g3 True 800 (3187 / 4) [300, 294]"
    by auto
  from cruise[OF c3, of 138 ?sp] obtain g4 where
    e4: "run ?sp (replicate 138 Tick) g3 = Some g4"
    and c4: "cruising g4 True (13 / 2) (13 / 4) [300, 294]"
    by (auto simp: nh)
  from tick_recycle_second[OF c4, of ?sp] obtain g5 where
    e5: "fire ?sp Tick g4 = Some g5" and c5: "cruising g5 True (3 / 4) 1100 [294]"
    by auto
  from tick_recycle_first[OF c5, of ?sp] obtain g6 where
    e6: "fire ?sp Tick g5 = Some g6" and c6: "cruising g6 True 1094 (4377 / 4) []"
    by auto
  from cheat_off[OF c6] obtain g7 where
    e7: "fire ?sp InvincibilityEnds g6 = Some g7"
    and c7: "cruising g7 False 1094 (4377 / 4) []" by auto
  have far: "125 \<le> x - of_nat (Suc k) * (23 / 4)" if "k < 168" "1094 \<le> x" for k and x :: rat
  proof -
    from that(1) have "Suc k \<le> 168" by simp
    then have "(of_nat (Suc k) :: rat) \<le> of_nat 168" by (simp only: of_nat_le_iff)
    then have "(of_nat (Suc k) :: rat) * (23 / 4) \<le> of_nat 168 * (23 / 4)"
      by (rule mult_right_mono) simp
    also have "(of_nat 168 :: rat) * (23 / 4) = 966" by simp
    finally have "(of_nat (Suc k) :: rat) * (23 / 4) \<le> 966" .
    with that(2) show ?thesis by linarith
  qed
  have q1: "\<forall>k < 168. \<not> check_collision False (dino_bbox ?sp (75, 274))
        (obstacle_bbox ?sp (1094 - of_nat (Suc k) * (23 / 4), 340))"
    using far[of _ 1094] by (auto intro!: demo_no_hit)
  have q2: "\<forall>k < 168. \<not> check_collision False (dino_bbox ?sp (75, 274))
        (obstacle_bbox ?sp (4377 / 4 - of_nat (Suc k) * (23 / 4), 340))"
    using far[of _ "4377 / 4"] by (auto intro!: demo_no_hit)
  have b: "of_nat 168 * (23 / 4) \<le> (1094 :: rat)" "of_nat 168 * (23 / 4) \<le> (4377 / 4 :: rat)"
    by simp_all
  from cruise[OF c7 b q1 q2] obtain g8 where
    e8: "run ?sp (replicate 168 Tick) g7 = Some g8"
    and c8: "cruising g8 False 128 (513 / 4) []"
    by auto
  have x8: "23 / 4 \<le> (128 :: rat)" "23 / 4 \<le> (513 / 4 :: rat)" by simp_all
  from double_hit_tick[OF c8 x8 demo_hits] obtain g9 where
    e9: "fire ?sp Tick g8 = Some g9" and l9: "leaderboard g9 = [(''Ann'', 1), (''Ann'', 1)]"
    by auto
  show ?thesis
    by (simp only: s bind.bind_lunit run.simps run_append e1 e2 e3 e4 e5 e6 e7 e8 e9
        option.map l9)
qed

theorem game_over_twice_in_one_tick_witness:
  "map_option (\<lambda>g. length (leaderboard g))
     (DinoGame_init NoFile True [0, 400, 0, 0, 300, 294]
        \<bind> save_name_and_start demo_sprites ''Ann''
        \<bind> run demo_sprites
             (KeyChar ''c'' # replicate 129 Tick @ Tick # replicate 138 Tick @ Tick # Tick #
              InvincibilityEnds # replicate 168 Tick @ [Tick]))
     = Some 2"
proof -
  from game_over_twice_in_one_tick obtain g' where
    "DinoGame_init NoFile True [0, 400, 0, 0, 300, 294]
        \<bind> save_name_and_start demo_sprites ''Ann''
        \<bind> run demo_sprites
             (KeyChar ''c'' # replicate 129 Tick @ Tick # replicate 138 Tick @ Tick # Tick #
              InvincibilityEnds # replicate 168 Tick @ [Tick]) = Some g'"
    and "leaderboard g' = [(''Ann'', 1), (''Ann'', 1)]" by auto
  then show ?thesis by simp
qed

text \<open>
  What one call of \<open>game_over\<close> does to the leaderboard: the entry of the session is
  appended once, the list is sorted by score, highest first, entries with equal scores
  staying in their order, and the first five are kept.
\<close>

lemma sorted_reverse_descending: "sorted (rev (map key (sorted_reverse key xs)))"
  by (simp add: sorted_reverse_def rev_map)

lemma sorted_reverse_stable:
  "filter (\<lambda>x. key x = k) (sorted_reverse key xs) = filter (\<lambda>x. key x = k) xs"
proof -
  have "filter (\<lambda>x. key x = k) (sorted_reverse key xs)
      = rev (filter (\<lambda>x. key x = k) (sort_key key (rev xs)))"
    by (simp add: sorted_reverse_def rev_filter)
  also have "\<dots> = rev (filter (\<lambda>x. key x = k) (rev xs))"
    by (simp only: sort_key_stable)
  also have "\<dots> = filter (\<lambda>x. key x = k) xs"
    by (simp add: rev_filter)
  finally show ?thesis .
qed

lemma sorted_reverse_same_entries:
  "set (sorted_reverse key xs) = set xs" "length (sorted_reverse key xs) = length xs"
  by (simp_all add: sorted_reverse_def)

lemma game_over_leaderboard:
  assumes "game_over g = Some g'"
  shows "\<exists>n s. player_name g = Some n \<and> score g = Some s \<and>
           leaderboard g' = take 5 (sorted_reverse snd (leaderboard g @ [(n, s)])) \<and>
           length (leaderboard g') \<le> 5 \<and> \<not> game_running g' \<and> save_file g' = NoFile"
proof -
  from assms obtain n s where ns: "player_name g = Some n" "score g = Some s"
    by (auto simp: game_over_def Let_def split: bind_splits if_splits)
  with assms have "leaderboard g' = take 5 (sorted_reverse snd (leaderboard g @ [(n, s)])) \<and>
      \<not> game_running g' \<and> save_file g' = NoFile"
    by (auto simp: game_over_def Let_def canvas_alive_def split: bind_splits if_splits)
  with ns show ?thesis by auto
qed

lemma leaderboard_example:
  "fold (\<lambda>e lb. take 5 (sorted_reverse snd (lb @ [e])))
     [(''a'', 10), (''b'', 50), (''c'', 30), (''d'', 50), (''e'', 5), (''f'', 20 :: int)] []
   = [(''b'', 50), (''d'', 50), (''c'', 30), (''f'', 20), (''a'', 10)]"
  by (simp add: sorted_reverse_def)

lemma load_initial_state_raises_iff:
  "load_initial_state (new_game f w r) = None \<longleftrightarrow>
     f = Undecodable \<or> f = Scalar \<or>
     (\<exists>s. f = JString s \<and> contains ''score'' s \<and> contains ''keybinds'' s) \<or>
     (\<exists>xs. f = JArray xs \<and> ''score'' \<in> set xs \<and> ''keybinds'' \<in> set xs)"
  by (cases f) (auto simp: load_initial_state_def new_game_def)

text \<open>
  C8, on the code. A save file that holds \<open>null\<close> (or a number, \<open>true\<close>, \<open>false\<close>)
  has neither a \<open>score\<close> nor a \<open>keybinds\<close> field, and \<open>load_initial_state\<close> raises on
  it, and with it the constructor; so do a file of undecodable bytes, the JSON string
  \<open>"score keybinds"\<close> and the JSON array \<open>["score", "keybinds"]\<close>, while without a file
  the constructor returns the defaults. And a snapshot that lacks \<open>score\<close> is not
  treated as no saved game: \<open>saved_state\<close> is false, but the Load Game button is enabled
  and \<open>load_game\<close> restores the session from it.
\<close>

theorem invalid_save_file_raises:
  "\<not> valid_for_resume Scalar \<and> load_initial_state (new_game Scalar w r) = None \<and>
   DinoGame_init Scalar w r = None \<and>
   \<not> valid_for_resume Undecodable \<and> DinoGame_init Undecodable w r = None \<and>
   \<not> valid_for_resume (JString ''score keybinds'') \<and>
   DinoGame_init (JString ''score keybinds'') w r = None \<and>
   \<not> valid_for_resume (JArray [''score'', ''keybinds'']) \<and>
   DinoGame_init (JArray [''score'', ''keybinds'']) w r = None \<and>
   DinoGame_init NoFile w r = Some (new_game NoFile w r) \<and>
   \<not> valid_for_resume (Parsed ((game_state_of demo_game)\<lparr>s_score := None\<rparr>)) \<and>
   (\<exists>g0 g2. DinoGame_init (Parsed ((game_state_of demo_game)\<lparr>s_score := None\<rparr>)) w r = Some g0 \<and>
      \<not> saved_state g0 \<and> load_button_enabled g0 \<and>
      load_game sp g0 = Some g2 \<and> player_name g2 = Some ''Ann'' \<and>
      obstacle_speed g2 = Some (23 / 4) \<and> obstacles g2 = Some [(80, 340), (90, 340)])"
proof -
  have raise: "DinoGame_init f w r = None" if "load_initial_state (new_game f w r) = None" for f
    using that by (simp add: DinoGame_init_def)
  have 1: "load_initial_state (new_game Scalar w r) = None"
    "load_initial_state (new_game Undecodable w r) = None"
    "load_initial_state (new_game (JString ''score keybinds'') w r) = None"
    "load_initial_state (new_game (JArray [''score'', ''keybinds'']) w r) = None"
    by (simp_all add: load_initial_state_def new_game_def)
  have 2: "\<not> valid_for_resume Scalar" "\<not> valid_for_resume Undecodable"
    "\<not> valid_for_resume (JString ''score keybinds'')"
    "\<not> valid_for_resume (JArray [''score'', ''keybinds''])"
    "\<not> valid_for_resume (Parsed ((game_state_of demo_game)\<lparr>s_score := None\<rparr>))"
    by (simp_all add: valid_for_resume_def)
  have 3: "DinoGame_init NoFile w r = Some (new_game NoFile w r)"
    by (rule init_without_valid_file(2)) simp
  let ?s = "(game_state_of demo_game)\<lparr>s_score := None\<rparr>"
  have i: "DinoGame_init (Parsed ?s) w r = Some (new_game (Parsed ?s) w r)"
    by (rule init_without_valid_file(2)) simp
  let ?g0 = "new_game (Parsed ?s) w r"
  have sf: "save_file ?g0 = Parsed ?s" by (simp add: new_game_def)
  have kb: "s_keybinds ?s = Some (keybinds ?g0)"
    by (simp add: new_game_def game_state_of_def demo_game_def)
  have rc: "recreate_obstacles (getd (s_obstacles ?s) []) [] = ([(80, 340), (90, 340)], True)"
    by (simp add: game_state_of_def getd_def recreate_saved_obstacles demo_game_def)
  from load_game_restores[OF sf init_shape(2)[OF i] kb rc, of sp] obtain g2 where
    "load_game sp ?g0 = Some g2" "player_name g2 = Some (getd (s_player_name ?s) ''Player'')"
    "obstacle_speed g2 = Some (getd (s_obstacle_speed ?s) 5)"
    "obstacles g2 = Some [(80, 340), (90, 340)]"
    by auto
  then have l: "load_game sp ?g0 = Some g2 \<and> player_name g2 = Some ''Ann'' \<and>
      obstacle_speed g2 = Some (23 / 4) \<and> obstacles g2 = Some [(80, 340), (90, 340)]"
    by (simp add: game_state_of_def getd_def demo_game_def)
  have "\<not> saved_state ?g0 \<and> load_button_enabled ?g0"
    by (simp add: new_game_def load_button_enabled_def)
  with i l have 4: "\<exists>g0 g2. DinoGame_init (Parsed ?s) w r = Some g0 \<and>
      \<not> saved_state g0 \<and> load_button_enabled g0 \<and>
      load_game sp g0 = Some g2 \<and> player_name g2 = Some ''Ann'' \<and>
      obstacle_speed g2 = Some (23 / 4) \<and> obstacles g2 = Some [(80, 340), (90, 340)]"
    by blast
  from 1 2 3 4 raise show ?thesis by blast
qed

theorem invalid_save_file_raises_witness:
  "DinoGame_init Scalar True [] = None \<and> \<not> valid_for_resume Scalar \<and>
   DinoGame_init NoFile True [] \<noteq> None"
  using invalid_save_file_raises[of True "[]" demo_sprites] by simp

end
